theory Spec2Isabelle
  imports Main
begin

section \<open>Strings and paths\<close>

text \<open>
  Python strings are modelled as Isabelle strings, read as text of code points below 256.
  The library functions the program calls on them (\<^verbatim>\<open>str.lower\<close>, \<^verbatim>\<open>str.strip\<close>,
  \<^verbatim>\<open>str.rfind\<close>, \<^verbatim>\<open>os.path.splitext\<close>, \<^verbatim>\<open>os.path.basename\<close>) follow CPython's
  definitions for a POSIX platform on that range.
\<close>

definition lower_char :: "char \<Rightarrow> char" where
  "lower_char c =
     (let n = (of_char c :: nat) in
      if (65 \<le> n \<and> n \<le> 90) \<or> (192 \<le> n \<and> n \<le> 222 \<and> n \<noteq> 215)
      then char_of (n + 32) else c)"

definition lower :: "string \<Rightarrow> string" where
  "lower s = map lower_char s"

definition isspace :: "char \<Rightarrow> bool" where
  "isspace c =
     (let n = (of_char c :: nat) in
      (9 \<le> n \<and> n \<le> 13) \<or> (28 \<le> n \<and> n \<le> 32) \<or> n = 133 \<or> n = 160)"

definition strip :: "string \<Rightarrow> string" where
  "strip s = rev (dropWhile isspace (rev (dropWhile isspace s)))"

fun join :: "string \<Rightarrow> string list \<Rightarrow> string" where
  "join sep [] = []"
| "join sep [x] = x"
| "join sep (x # y # ys) = x @ sep @ join sep (y # ys)"

fun str_nat :: "nat \<Rightarrow> string" where
  "str_nat n =
     (if n < 10 then [char_of (48 + n)]
      else str_nat (n div 10) @ [char_of (48 + n mod 10)])"

definition str_int :: "int \<Rightarrow> string" where
  "str_int i = (if i < 0 then ''-'' @ str_nat (nat (- i)) else str_nat (nat i))"

text \<open>\<^verbatim>\<open>p.rfind(c)\<close>: the index of the last occurrence of \<open>c\<close>, or \<open>-1\<close>.\<close>

primrec rfind :: "string \<Rightarrow> char \<Rightarrow> int" where
  "rfind [] c = - 1"
| "rfind (x # xs) c =
     (let r = rfind xs c in
      if 0 \<le> r then r + 1 else if x = c then 0 else - 1)"

text \<open>
  The loop of \<^verbatim>\<open>genericpath._splitext\<close> that skips the leading dots of the last path
  component: it answers whether a character other than a dot stands before the last dot.

  \<^verbatim>\<open>while filenameIndex < dotIndex:
      if p[filenameIndex:filenameIndex+1] != extsep:
          return p[:dotIndex], p[dotIndex:]
      filenameIndex += 1\<close>
\<close>

function skip_leading_dots :: "string \<Rightarrow> int \<Rightarrow> int \<Rightarrow> bool" where
  "skip_leading_dots p filenameIndex dotIndex =
     (if filenameIndex < dotIndex then
        (if take 1 (drop (nat filenameIndex) p) \<noteq> ''.'' then True
         else skip_leading_dots p (filenameIndex + 1) dotIndex)
      else False)"
  by pat_completeness auto
termination
  by (relation "measure (\<lambda>(p, i, d). nat (d - i))") auto

declare skip_leading_dots.simps [simp del]

text \<open>\<^verbatim>\<open>os.path.splitext(p)\<close> with separator \<open>/\<close> and extension separator \<open>.\<close>.\<close>

definition splitext :: "string \<Rightarrow> string \<times> string" where
  "splitext p =
     (let sepIndex = rfind p CHR ''/'';
          dotIndex = rfind p CHR ''.''
      in if sepIndex < dotIndex \<and> skip_leading_dots p (sepIndex + 1) dotIndex
         then (take (nat dotIndex) p, drop (nat dotIndex) p)
         else (p, []))"

text \<open>\<^verbatim>\<open>os.path.basename(p)\<close>: what follows the last separator.\<close>

definition basename :: "string \<Rightarrow> string" where
  "basename p = drop (nat (rfind p CHR ''/'' + 1)) p"

text \<open>
  \<^verbatim>\<open>def get_file_extension(file_name: str):
      return (os.path.splitext(file_name)[1] or "").lower()\<close>
\<close>

definition get_file_extension :: "string \<Rightarrow> string" where
  "get_file_extension file_name = lower (snd (splitext file_name))"

text \<open>
  The transcript's object name, line 138 of \<^verbatim>\<open>speech_to_text\<close>:
  \<^verbatim>\<open>processed_blob_name = f"{os.path.splitext(file_name)[0]}.txt"\<close>
\<close>

definition processed_blob_name :: "string \<Rightarrow> string" where
  "processed_blob_name file_name = fst (splitext file_name) @ ''.txt''"

section \<open>Exceptions, the object store and the world\<close>

text \<open>
  An exception is its class and its text (\<^verbatim>\<open>str(e)\<close>). Every class is a subclass of
  \<^verbatim>\<open>Exception\<close>; the handlers of the program tell them apart by class only.
\<close>

datatype exn_class =
    PreconditionFailed | NotFound | CalledProcessError | TimeoutExpired
  | FileNotFoundError | OtherException

datatype exn = Exn exn_class string

fun class_of :: "exn \<Rightarrow> exn_class" where
  "class_of (Exn c m) = c"

fun exn_text :: "exn \<Rightarrow> string" where
  "exn_text (Exn c m) = m"

text \<open>
  A stored object is its generation and its content. Objects are addressed by
  (bucket, name).
\<close>

record blob =
  generation :: nat
  body :: string

type_synonym key = "string \<times> string"
type_synonym store = "key \<rightharpoonup> blob"

text \<open>
  Modelled from the spec: the object store is an external service, of which the
  repository holds only the calls. Section 6 of the spec lists them: existence check,
  metadata reload (to read the generation), download, upload with an optional "generation
  must equal X" precondition, and delete; the glossary makes the generation "a
  monotonically increasing version identifier attached to a stored object". An accepted
  upload stores the content under the next generation; an upload whose precondition names
  another generation than the current one is rejected with \<open>PreconditionFailed\<close> and
  changes nothing; deleting or downloading an object that is not there is \<open>NotFound\<close>.
\<close>

definition current_generation_of :: "blob option \<Rightarrow> nat" where
  "current_generation_of ob = (case ob of None \<Rightarrow> 0 | Some b \<Rightarrow> generation b)"

definition upload :: "key \<Rightarrow> string \<Rightarrow> nat option \<Rightarrow> store \<Rightarrow> exn + store" where
  "upload k content if_generation_match s =
     (let accepted = s(k \<mapsto> \<lparr>generation = Suc (current_generation_of (s k)), body = content\<rparr>)
      in case if_generation_match of
           None \<Rightarrow> Inr accepted
         | Some g \<Rightarrow>
             if g = current_generation_of (s k) then Inr accepted
             else Inl (Exn PreconditionFailed ''conditionNotMet''))"

definition download :: "key \<Rightarrow> store \<Rightarrow> exn + string" where
  "download k s =
     (case s k of None \<Rightarrow> Inl (Exn NotFound ''No such object'') | Some b \<Rightarrow> Inr (body b))"

definition delete_blob :: "key \<Rightarrow> store \<Rightarrow> exn + store" where
  "delete_blob k s =
     (case s k of None \<Rightarrow> Inl (Exn NotFound ''No such object'') | Some b \<Rightarrow> Inr (s(k := None)))"

text \<open>
  What one invocation sees and leaves behind: the object store, its private scratch
  files under \<^verbatim>\<open>/tmp\<close>, and the trace of what it did locally: the lines of the process
  logger (level and text, without the pictographs that open some of them), the waits of
  \<^verbatim>\<open>time.sleep\<close> in half seconds, and the calls to the speech service.
\<close>

datatype level = INFO | WARNING | ERROR

datatype event = Logger level string | Sleep int | Recognize string

record world =
  remote :: store
  tmp :: "string \<rightharpoonup> string"
  trace :: "event list"

definition emit :: "event \<Rightarrow> world \<Rightarrow> world" where
  "emit e w = w\<lparr>trace := trace w @ [e]\<rparr>"

definition write_file :: "string \<Rightarrow> string \<Rightarrow> world \<Rightarrow> world" where
  "write_file path content w = w\<lparr>tmp := (tmp w)(path \<mapsto> content)\<rparr>"

text \<open>\<^verbatim>\<open>with open(path, "a") as f: f.write(data)\<close>\<close>

definition append_file :: "string \<Rightarrow> string \<Rightarrow> world \<Rightarrow> world" where
  "append_file path data w =
     w\<lparr>tmp := (tmp w)(path \<mapsto> (case tmp w path of None \<Rightarrow> data | Some old \<Rightarrow> old @ data))\<rparr>"

definition read_file :: "string \<Rightarrow> world \<Rightarrow> string" where
  "read_file path w = (case tmp w path of None \<Rightarrow> [] | Some c \<Rightarrow> c)"

section \<open>Configuration\<close>

definition OUTPUT_BUCKET :: string where "OUTPUT_BUCKET = ''discovery-processed''"
definition LOCAL_LOG_PATH :: string where "LOCAL_LOG_PATH = ''/tmp/logs.txt''"
definition LOG_FOLDER :: string where "LOG_FOLDER = ''logs''"
definition LOG_FILE_NAME :: string where "LOG_FILE_NAME = ''logs.txt''"
definition LOG_BUCKET_NAME :: string where "LOG_BUCKET_NAME = ''discovery-processed''"

text \<open>\<^verbatim>\<open>blob = bucket.blob(f"{LOG_FOLDER}/{LOG_FILE_NAME}")\<close> of \<^verbatim>\<open>LOG_BUCKET_NAME\<close>.\<close>

definition log_key :: key where
  "log_key = (LOG_BUCKET_NAME, LOG_FOLDER @ ''/'' @ LOG_FILE_NAME)"

section \<open>The audit logger: \<^verbatim>\<open>gcs_log\<close>\<close>

text \<open>
  What the surroundings do to one attempt of \<^verbatim>\<open>gcs_log\<close>: \<open>before\<close> and \<open>between\<close> are
  what other invocations do to the log object before the attempt reads it and between
  its download and its upload; \<open>read_fault\<close> and \<open>upload_fault\<close> are exceptions the
  storage calls of lines 295 to 298 and of line 312 raise for a reason of their own (a
  network error, say). A call also reads the clock once.
\<close>

record attempt_env =
  before :: "blob option \<Rightarrow> blob option"
  read_fault :: "exn option"
  between :: "blob option \<Rightarrow> blob option"
  upload_fault :: "exn option"

record audit_env =
  clock :: string
  attempts :: "int \<Rightarrow> attempt_env"

definition others :: "(blob option \<Rightarrow> blob option) \<Rightarrow> world \<Rightarrow> world" where
  "others f w = w\<lparr>remote := (remote w)(log_key := f (remote w log_key))\<rparr>"

text \<open>
  The body of the \<^verbatim>\<open>try\<close>, lines 294 to 315. The result is the exception that left it
  (\<open>None\<close> when line 315 returned) and the world at that moment.

  \<^verbatim>\<open>if blob.exists():
      blob.reload()
      current_generation = blob.generation
      blob.download_to_filename(LOCAL_LOG_PATH)
  else:
      current_generation = 0
      open(LOCAL_LOG_PATH, "w").close()
  with open(LOCAL_LOG_PATH, "a") as f:
      f.write(log_entry)
  upload_kwargs = {}
  if current_generation > 0:
      upload_kwargs["if_generation_match"] = current_generation
  blob.upload_from_filename(LOCAL_LOG_PATH, content_type="text/plain", **upload_kwargs)
  logger.info(f"Successfully appended to logs.txt on attempt {attempt}")
  return\<close>
\<close>

definition try_block :: "attempt_env \<Rightarrow> string \<Rightarrow> int \<Rightarrow> world \<Rightarrow> exn option \<times> world" where
  "try_block a log_entry attempt w =
     (let w0 = others (before a) w in
      case read_fault a of
        Some e \<Rightarrow> (Some e, w0)
      | None \<Rightarrow>
          let current_generation = current_generation_of (remote w0 log_key);
              w1 = (case remote w0 log_key of
                      Some b \<Rightarrow> write_file LOCAL_LOG_PATH (body b) w0
                    | None \<Rightarrow> write_file LOCAL_LOG_PATH [] w0);
              w2 = append_file LOCAL_LOG_PATH log_entry w1;
              upload_kwargs = (if 0 < current_generation then Some current_generation else None);
              w3 = others (between a) w2
          in case upload_fault a of
               Some e \<Rightarrow> (Some e, w3)
             | None \<Rightarrow>
                 (case upload log_key (read_file LOCAL_LOG_PATH w3) upload_kwargs (remote w3) of
                    Inl e \<Rightarrow> (Some e, w3)
                  | Inr s \<Rightarrow>
                      (None, emit (Logger INFO (''Successfully appended to logs.txt on attempt ''
                                     @ str_int attempt)) (w3\<lparr>remote := s\<rparr>))))"

text \<open>
  How one pass through the loop body ends: the function returns, the loop continues
  with the next attempt, or control falls out of the \<^verbatim>\<open>try\<close> statement to the statement
  after it (line 325, inside the loop).
\<close>

datatype control = Return | Continue | Fallthrough

text \<open>
  The \<^verbatim>\<open>try\<close> statement with its handlers, lines 293 to 323:

  \<^verbatim>\<open>except gcp_exceptions.PreconditionFailed:
      logger.warning(f"Generation mismatch on attempt {attempt}, retrying...")
      time.sleep(0.5 * attempt)
      continue
  except Exception as e:
      logger.exception(f"Unexpected error while writing to logs.txt: {e}")
      return\<close>
\<close>

definition try_statement :: "attempt_env \<Rightarrow> string \<Rightarrow> int \<Rightarrow> world \<Rightarrow> control \<times> world" where
  "try_statement a log_entry attempt w =
     (case try_block a log_entry attempt w of
        (None, w') \<Rightarrow> (Return, w')
      | (Some e, w') \<Rightarrow>
          if class_of e = PreconditionFailed then
            (Continue,
             emit (Sleep attempt)
               (emit (Logger WARNING (''Generation mismatch on attempt '' @ str_int attempt
                        @ '', retrying...'')) w'))
          else
            (Return,
             emit (Logger ERROR (''Unexpected error while writing to logs.txt: '' @ exn_text e)) w'))"

text \<open>
  The loop \<^verbatim>\<open>for attempt in range(1, max_retries + 1)\<close> over the attempt numbers still to
  come. Line 325 stands in the loop body after the \<^verbatim>\<open>try\<close> statement:

  \<^verbatim>\<open>logger.error("Failed to append log after multiple retries due to concurrent writes.")\<close>
\<close>

fun gcs_log_loop :: "(int \<Rightarrow> attempt_env) \<Rightarrow> string \<Rightarrow> int list \<Rightarrow> world \<Rightarrow> world" where
  "gcs_log_loop env log_entry [] w = w"
| "gcs_log_loop env log_entry (attempt # rest) w =
     (case try_statement (env attempt) log_entry attempt w of
        (Return, w') \<Rightarrow> w'
      | (Continue, w') \<Rightarrow> gcs_log_loop env log_entry rest w'
      | (Fallthrough, w') \<Rightarrow>
          gcs_log_loop env log_entry rest
            (emit (Logger ERROR
               ''Failed to append log after multiple retries due to concurrent writes.'') w'))"

text \<open>\<^verbatim>\<open>log_entry = f"[{timestamp}] [{severity}]: {message}\n"\<close>\<close>

definition format_entry :: "string \<Rightarrow> string \<Rightarrow> string \<Rightarrow> string" where
  "format_entry timestamp severity message =
     ''['' @ timestamp @ ''] ['' @ severity @ '']: '' @ message @ [CHR 0x0A]"

text \<open>
  \<^verbatim>\<open>def gcs_log(message: str, severity: str = "INFO", max_retries: int = 5)\<close>. No
  exception leaves it: it returns the world it leaves behind.
\<close>

definition gcs_log :: "audit_env \<Rightarrow> string \<Rightarrow> string \<Rightarrow> int \<Rightarrow> world \<Rightarrow> world" where
  "gcs_log env message severity max_retries w =
     gcs_log_loop (attempts env) (format_entry (clock env) severity message) [1..max_retries] w"

section \<open>The surroundings of one invocation\<close>

text \<open>
  The trigger event, \<^verbatim>\<open>ce["type"]\<close>, \<^verbatim>\<open>ce.data["bucket"]\<close> and \<^verbatim>\<open>ce.data["name"]\<close>.
\<close>

record cloud_event =
  event_type :: string
  bucket_name :: string
  file_name :: string

text \<open>
  The storage calls outside \<^verbatim>\<open>gcs_log\<close>, each of which may fail for a reason of its
  own, and the places where \<^verbatim>\<open>gcs_log\<close> is called.
\<close>

datatype site = PolicyDelete | ValidateDownload | ValidateDelete | ArtifactUpload

datatype audit_site = AtPolicy | AtValidation | AtTranscribed | AtTranscribeFailed

text \<open>
  The external tools answer from the content of the local file: \<open>ffprobe\<close> is
  \<^verbatim>\<open>subprocess.run(["ffprobe", "-v", "error", "-i", local_path], capture_output=True,
  text=True, timeout=30)\<close> with its return code and error stream, or the exception the call
  raises; \<open>image_verify\<close>, \<open>docx_document\<close> and \<open>pdf_pages\<close> are the exception, if
  any, of \<^verbatim>\<open>Image.open(..).verify()\<close>, \<^verbatim>\<open>Document(..)\<close> and \<^verbatim>\<open>len(PdfReader(..).pages)\<close>.
  \<open>recognize\<close> is the speech service: the best alternative's transcript of every result, in
  order, or the exception of the call.
\<close>

record env =
  fault :: "site \<Rightarrow> exn option"
  ffprobe :: "string \<Rightarrow> exn + int \<times> string"
  image_verify :: "string \<Rightarrow> exn option"
  docx_document :: "string \<Rightarrow> exn option"
  pdf_pages :: "string \<Rightarrow> exn option"
  recognize :: "string \<Rightarrow> exn + string list"
  audit :: "audit_site \<Rightarrow> audit_env"

definition storage_delete :: "env \<Rightarrow> site \<Rightarrow> key \<Rightarrow> world \<Rightarrow> exn + world" where
  "storage_delete env st k w =
     (case fault env st of
        Some e \<Rightarrow> Inl e
      | None \<Rightarrow> (case delete_blob k (remote w) of Inl e \<Rightarrow> Inl e | Inr s \<Rightarrow> Inr (w\<lparr>remote := s\<rparr>)))"

definition storage_download :: "env \<Rightarrow> site \<Rightarrow> key \<Rightarrow> string \<Rightarrow> world \<Rightarrow> exn + world" where
  "storage_download env st k path w =
     (case fault env st of
        Some e \<Rightarrow> Inl e
      | None \<Rightarrow> (case download k (remote w) of Inl e \<Rightarrow> Inl e | Inr c \<Rightarrow> Inr (write_file path c w)))"

definition storage_upload :: "env \<Rightarrow> site \<Rightarrow> key \<Rightarrow> string \<Rightarrow> world \<Rightarrow> exn + world" where
  "storage_upload env st k path w =
     (case fault env st of
        Some e \<Rightarrow> Inl e
      | None \<Rightarrow>
          (case upload k (read_file path w) None (remote w) of
             Inl e \<Rightarrow> Inl e
           | Inr s \<Rightarrow> Inr (w\<lparr>remote := s\<rparr>)))"

text \<open>The two glyphs outside ASCII that the texts below need, as their UTF-8 bytes.\<close>

definition em_dash :: string where "em_dash = [CHR 0xE2, CHR 0x80, CHR 0x94]"
definition arrow :: string where "arrow = [CHR 0xE2, CHR 0x86, CHR 0x92]"

section \<open>The folder policy: \<^verbatim>\<open>handle_new_file_or_change\<close>\<close>

text \<open>
  \<^verbatim>\<open>if "/" not in file_name:
      logger.info(f"File {file_name} uploaded at bucket root - not allowed.")
      bucket = storage_client.bucket(bucket_name)
      blob = bucket.blob(file_name)
      blob.delete()
      gcs_log(f"Deleted disallowed file {file_name} (no files allowed at bucket root)")
      return True
  else:
      logger.info(f"File {file_name} is inside a folder. Continuing...")
      return False\<close>

  The result is the exception that left the function with the world at that moment, or
  the returned flag with the world.
\<close>

definition deletion_message :: "string \<Rightarrow> string" where
  "deletion_message name =
     ''Deleted disallowed file '' @ name @ '' (no files allowed at bucket root)''"

definition handle_new_file_or_change ::
  "env \<Rightarrow> cloud_event \<Rightarrow> world \<Rightarrow> exn \<times> world + bool \<times> world" where
  "handle_new_file_or_change env ce w =
     (if CHR ''/'' \<notin> set (file_name ce) then
        let w1 = emit (Logger INFO (''File '' @ file_name ce @ '' uploaded at bucket root ''
                         @ em_dash @ '' not allowed.'')) w
        in case storage_delete env PolicyDelete (bucket_name ce, file_name ce) w1 of
             Inl e \<Rightarrow> Inl (e, w1)
           | Inr w2 \<Rightarrow>
               Inr (True, gcs_log (audit env AtPolicy) (deletion_message (file_name ce)) ''INFO'' 5 w2)
      else
        Inr (False, emit (Logger INFO (''File '' @ file_name ce
                            @ '' is inside a folder. Continuing...'')) w))"

section \<open>The validator: \<^verbatim>\<open>validate_file_helper\<close> and \<^verbatim>\<open>validate_file\<close>\<close>

definition media_extensions :: "string list" where
  "media_extensions = [''.mp4'', ''.mkv'', ''.mp3'', ''.wav'', ''.m4a'']"

definition image_extensions :: "string list" where
  "image_extensions = [''.jpg'', ''.jpeg'', ''.png'']"

text \<open>A library call that opens the local file: a missing file is its own exception.\<close>

definition on_local_file :: "(string \<Rightarrow> exn option) \<Rightarrow> world \<Rightarrow> string \<Rightarrow> exn option" where
  "on_local_file tool w path =
     (case tmp w path of
        None \<Rightarrow> Some (Exn FileNotFoundError (''No such file or directory: '' @ path))
      | Some content \<Rightarrow> tool content)"

text \<open>
  The media branch, lines 237 to 252. The handler of line 251 catches
  \<^verbatim>\<open>subprocess.CalledProcessError\<close> and nothing else.

  \<^verbatim>\<open>if not os.path.exists(local_path):
      return False, f"File download failed: {local_path} does not exist."
  try:
      result = subprocess.run(..., timeout=30)
      stderr_content = result.stderr.strip()
      if result.returncode != 0 or stderr_content:
          return False, f"Invalid or corrupted media: {file_name}, {stderr_content or 'None-zero exit code'}"
      else:
          return True, f"{file_name} file passed integrity check."
  except subprocess.CalledProcessError as e:
      return False, f"Invalid or corrupted media: {e.stderr.strip()}"\<close>
\<close>

definition validate_media :: "env \<Rightarrow> world \<Rightarrow> string \<Rightarrow> string \<Rightarrow> exn + bool \<times> string" where
  "validate_media env w local_path name =
     (case tmp w local_path of
        None \<Rightarrow> Inr (False, ''File download failed: '' @ local_path @ '' does not exist.'')
      | Some content \<Rightarrow>
          (case ffprobe env content of
             Inr (returncode, stderr) \<Rightarrow>
               let stderr_content = strip stderr in
               if returncode \<noteq> 0 \<or> stderr_content \<noteq> [] then
                 Inr (False, ''Invalid or corrupted media: '' @ name @ '', ''
                        @ (if stderr_content \<noteq> [] then stderr_content else ''None-zero exit code''))
               else Inr (True, name @ '' file passed integrity check.'')
           | Inl e \<Rightarrow>
               if class_of e = CalledProcessError then
                 Inr (False, ''Invalid or corrupted media: '' @ strip (exn_text e))
               else Inl e))"

text \<open>
  The image, DOCX and PDF branches, lines 255 to 275: each catches every exception.
\<close>

definition validate_image :: "env \<Rightarrow> world \<Rightarrow> string \<Rightarrow> bool \<times> string" where
  "validate_image env w local_path =
     (case on_local_file (image_verify env) w local_path of
        None \<Rightarrow> (True, ''Image file is valid.'')
      | Some e \<Rightarrow> (False, ''Corrupted image file: '' @ exn_text e))"

definition validate_docx :: "env \<Rightarrow> world \<Rightarrow> string \<Rightarrow> bool \<times> string" where
  "validate_docx env w local_path =
     (case on_local_file (docx_document env) w local_path of
        None \<Rightarrow> (True, ''DOCX file opened successfully.'')
      | Some e \<Rightarrow> (False, ''Corrupted DOCX file: '' @ exn_text e))"

definition validate_pdf :: "env \<Rightarrow> world \<Rightarrow> string \<Rightarrow> bool \<times> string" where
  "validate_pdf env w local_path =
     (case on_local_file (pdf_pages env) w local_path of
        None \<Rightarrow> (True, ''PDF file opened successfully.'')
      | Some e \<Rightarrow> (False, ''Corrupted or unreadable PDF: '' @ exn_text e))"

text \<open>
  \<^verbatim>\<open>def validate_file_helper(local_path: str, file_name: str) -> tuple[bool, str]\<close>:
  the chain of \<^verbatim>\<open>if ext in (...)\<close> / \<^verbatim>\<open>elif\<close> / \<^verbatim>\<open>else\<close> of lines 233 to 278.
\<close>

definition validate_file_helper :: "env \<Rightarrow> world \<Rightarrow> string \<Rightarrow> string \<Rightarrow> exn + bool \<times> string" where
  "validate_file_helper env w local_path name =
     (let ext = get_file_extension name in
      if ext \<in> set media_extensions then validate_media env w local_path name
      else if ext \<in> set image_extensions then Inr (validate_image env w local_path)
      else if ext = ''.docx'' then Inr (validate_docx env w local_path)
      else if ext = ''.pdf'' then Inr (validate_pdf env w local_path)
      else Inr (False, ''Unsupported file type for '' @ name @ ''; skipping validation.''))"

text \<open>
  \<^verbatim>\<open>def validate_file(ce: CloudEvent)\<close>, lines 202 to 223: download, validate, and on an
  invalid verdict delete the object and append an ERROR entry.
\<close>

definition validate_file :: "env \<Rightarrow> cloud_event \<Rightarrow> world \<Rightarrow> exn \<times> world + world" where
  "validate_file env ce w =
     (let w1 = emit (Logger INFO ''WE GET HERE:)'') (emit (Logger INFO ''Trying to validate file!'') w);
          tmp_path = ''/tmp/'' @ basename (file_name ce)
      in case storage_download env ValidateDownload (bucket_name ce, file_name ce) tmp_path w1 of
           Inl e \<Rightarrow> Inl (e, w1)
         | Inr w2 \<Rightarrow>
             let w3 = emit (Logger INFO (''Downloaded '' @ file_name ce @ '' for validation.'')) w2
             in case validate_file_helper env w3 tmp_path (file_name ce) of
                  Inl e \<Rightarrow> Inl (e, w3)
                | Inr (valid, message) \<Rightarrow>
                    if valid then Inr (emit (Logger INFO message) w3)
                    else
                      let w4 = emit (Logger WARNING message) w3
                      in case storage_delete env ValidateDelete (bucket_name ce, file_name ce) w4 of
                           Inl e \<Rightarrow> Inl (e, w4)
                         | Inr w5 \<Rightarrow>
                             Inr (gcs_log (audit env AtValidation)
                                    (''Deleted corrupted or invalid file '' @ file_name ce @ '': ''
                                       @ message @ [CHR 0x0A])
                                    ''ERROR'' 5 w5))"

section \<open>The transcription stage: \<^verbatim>\<open>transcribe_gcs\<close> and \<^verbatim>\<open>speech_to_text\<close>\<close>

definition audio_extensions :: "string list" where
  "audio_extensions = [''.mp3'', ''.wav'', ''.flac'', ''.m4a'', ''.ogg'']"

text \<open>
  \<^verbatim>\<open>transcript = "\n".join([result.alternatives[0].transcript for result in response.results])
  return transcript.strip()\<close>
\<close>

definition transcribe_gcs :: "env \<Rightarrow> string \<Rightarrow> world \<Rightarrow> (exn + string) \<times> world" where
  "transcribe_gcs env gcs_uri w =
     (let w1 = emit (Recognize gcs_uri) w
      in case recognize env gcs_uri of
           Inl e \<Rightarrow> (Inl e, w1)
         | Inr results \<Rightarrow> (Inr (strip (join [CHR 0x0A] results)), w1))"

text \<open>
  The body of the \<^verbatim>\<open>try\<close> of \<^verbatim>\<open>speech_to_text\<close>, lines 133 to 146, with the exception that
  left it, if any.
\<close>

definition speech_try :: "env \<Rightarrow> cloud_event \<Rightarrow> string \<Rightarrow> world \<Rightarrow> exn option \<times> world" where
  "speech_try env ce gcs_uri w =
     (case transcribe_gcs env gcs_uri w of
        (Inl e, w1) \<Rightarrow> (Some e, w1)
      | (Inr t, w1) \<Rightarrow>
          let transcript = (if t = [] then ''[No transcription available]'' else t);
              blob_name = processed_blob_name (file_name ce);
              tmp_path = ''/tmp/'' @ basename blob_name;
              w2 = write_file tmp_path transcript w1
          in case storage_upload env ArtifactUpload (OUTPUT_BUCKET, blob_name) tmp_path w2 of
               Inl e \<Rightarrow> (Some e, w2)
             | Inr w3 \<Rightarrow>
                 (None,
                  gcs_log (audit env AtTranscribed)
                    (''Transcribed '' @ gcs_uri @ '' '' @ arrow @ '' gs://'' @ OUTPUT_BUCKET @ ''/''
                       @ blob_name)
                    ''INFO'' 5
                    (emit (Logger INFO (''Uploaded transcription to gs://'' @ OUTPUT_BUCKET @ ''/''
                             @ blob_name)) w3)))"

text \<open>
  \<^verbatim>\<open>def speech_to_text(ce: CloudEvent)\<close>, lines 115 to 150. Its handler catches every
  exception of the \<^verbatim>\<open>try\<close>, so it always returns.
\<close>

definition speech_to_text :: "env \<Rightarrow> cloud_event \<Rightarrow> world \<Rightarrow> world" where
  "speech_to_text env ce w =
     (let ext = get_file_extension (file_name ce) in
      if ext \<notin> set audio_extensions then
        emit (Logger INFO (''Skipping speech-to-text: unsupported file type '' @ [CHR 0x27] @ ext
                @ [CHR 0x27])) w
      else
        let gcs_uri = ''gs://'' @ bucket_name ce @ ''/'' @ file_name ce;
            w1 = emit (Logger INFO (''Transcribing '' @ gcs_uri @ '' via Speech-to-Text v2...'')) w
        in case speech_try env ce gcs_uri w1 of
             (None, w2) \<Rightarrow> w2
           | (Some e, w2) \<Rightarrow>
               gcs_log (audit env AtTranscribeFailed)
                 (''Speech-to-text failed for '' @ gcs_uri @ '': '' @ exn_text e) ''ERROR'' 5
                 (emit (Logger ERROR (''Speech-to-text v2 failed for '' @ gcs_uri @ '': ''
                          @ exn_text e)) w2))"

section \<open>The entry point: \<^verbatim>\<open>analyze_discovery_material_ce\<close>\<close>

text \<open>
  Lines 61 to 86, with the clients already initialised (\<^verbatim>\<open>init_clients\<close> then does
  nothing). The call of line 71 stands outside every \<^verbatim>\<open>try\<close>; the call of line 77 stands
  in one whose handler catches every exception; line 84 follows unconditionally.

  \<^verbatim>\<open>if event_type == "google.cloud.storage.object.v1.finalized":
      file_deleted = handle_new_file_or_change(ce)
      if file_deleted:
          return
      try:
          validate_file(ce)
      except Exception as e:
          logger.exception(f"Error validating file : {e}")
      speech_to_text(ce)
      logger.info("To be continued! :)")\<close>
\<close>

definition analyze_discovery_material_ce :: "env \<Rightarrow> cloud_event \<Rightarrow> world \<Rightarrow> exn \<times> world + world" where
  "analyze_discovery_material_ce env ce w =
     (let w1 = emit (Logger INFO (''Called '' @ [CHR 0x22] @ ''analyze_discovery_material_ce''
                       @ [CHR 0x22] @ '' successfully'')) w in
      if event_type ce = ''google.cloud.storage.object.v1.finalized'' then
        (case handle_new_file_or_change env ce w1 of
           Inl (e, w2) \<Rightarrow> Inl (e, w2)
         | Inr (file_deleted, w2) \<Rightarrow>
             if file_deleted then Inr w2
             else
               let w3 = (case validate_file env ce w2 of
                           Inr w' \<Rightarrow> w'
                         | Inl (e, w') \<Rightarrow>
                             emit (Logger ERROR (''Error validating file : '' @ exn_text e)) w');
                   w4 = speech_to_text env ce w3
               in Inr (emit (Logger INFO ''To be continued! :)'') w4))
      else Inr w1)"

section \<open>Notions the statements use\<close>

text \<open>The content of the log object, empty when there is none.\<close>

definition body_of :: "blob option \<Rightarrow> string" where
  "body_of ob = (case ob of None \<Rightarrow> [] | Some b \<Rightarrow> body b)"

text \<open>
  What an attempt stages for upload: the content it downloads, followed by the entry.
\<close>

definition staged :: "attempt_env \<Rightarrow> string \<Rightarrow> world \<Rightarrow> string" where
  "staged a log_entry w = body_of (before a (remote w log_key)) @ log_entry"

text \<open>
  Line 314 logs at INFO, right after the upload was accepted, and is the only INFO line
  of \<^verbatim>\<open>gcs_log\<close>: the INFO lines of a trace count the accepted uploads.
\<close>

fun is_info :: "event \<Rightarrow> bool" where
  "is_info (Logger INFO m) = True"
| "is_info e = False"

definition accepted :: "event list \<Rightarrow> nat" where
  "accepted tr = length (filter is_info tr)"

fun is_error :: "event \<Rightarrow> bool" where
  "is_error (Logger ERROR m) = True"
| "is_error e = False"

text \<open>
  The copies of an entry in a log content: \<^verbatim>\<open>s.count(e)\<close>, the occurrences of \<open>e\<close> in
  \<open>s\<close> counted from the left without overlap.
\<close>

function copies :: "string \<Rightarrow> string \<Rightarrow> nat" where
  "copies e s =
     (if e = [] then Suc (length s)
      else if length s < length e then 0
      else if take (length e) s = e then Suc (copies e (drop (length e) s))
      else copies e (tl s))"
  by pat_completeness auto
termination
proof (relation "measure (\<lambda>(e, s). length s)")
  show "wf (measure (\<lambda>(e :: string, s :: string). length s))" by simp
next
  fix e s :: string
  assume "e \<noteq> []" "\<not> length s < length e"
  then obtain n where "length e = Suc n" "Suc n \<le> length s"
    by (cases e) auto
  then show "((e, drop (length e) s), (e, s)) \<in> measure (\<lambda>(e, s). length s)"
    and "((e, tl s), (e, s)) \<in> measure (\<lambda>(e, s). length s)"
    by auto
qed

declare copies.simps [simp del]

text \<open>
  What the other invocations alone make of the log object in the course of a call: at each
  attempt that runs, what they do before its read and, unless the read itself fails,
  between its download and its upload. \<open>downloaded\<close> is what the attempt after the
  attempts \<open>pre\<close> then reads.
\<close>

definition foreign_step :: "attempt_env \<Rightarrow> blob option \<Rightarrow> blob option" where
  "foreign_step a ob =
     (case read_fault a of Some e \<Rightarrow> before a ob | None \<Rightarrow> between a (before a ob))"

fun foreign :: "(int \<Rightarrow> attempt_env) \<Rightarrow> int list \<Rightarrow> blob option \<Rightarrow> blob option" where
  "foreign env [] ob = ob"
| "foreign env (attempt # rest) ob = foreign env rest (foreign_step (env attempt) ob)"

definition downloaded :: "(int \<Rightarrow> attempt_env) \<Rightarrow> int list \<Rightarrow> int \<Rightarrow> blob option \<Rightarrow> blob option" where
  "downloaded env pre attempt ob = before (env attempt) (foreign env pre ob)"

text \<open>An attempt that nothing disturbs, and a call whose attempts are all such.\<close>

definition calm :: attempt_env where
  "calm = \<lparr>before = (\<lambda>ob. ob), read_fault = None, between = (\<lambda>ob. ob), upload_fault = None\<rparr>"

definition quiet :: "string \<Rightarrow> audit_env" where
  "quiet timestamp = \<lparr>clock = timestamp, attempts = (\<lambda>attempt. calm)\<rparr>"

text \<open>Surroundings and inputs for the concrete runs below.\<close>

definition ideal_env :: env where
  "ideal_env =
     \<lparr>fault = (\<lambda>st. None),
      ffprobe = (\<lambda>content. Inr (0, [])),
      image_verify = (\<lambda>content. None),
      docx_document = (\<lambda>content. None),
      pdf_pages = (\<lambda>content. None),
      recognize = (\<lambda>uri. Inr [''hello'']),
      audit = (\<lambda>st. quiet ''2026-01-01 00:00:00 UTC'')\<rparr>"

definition fresh_world :: world where
  "fresh_world = \<lparr>remote = Map.empty, tmp = Map.empty, trace = []\<rparr>"

definition finalized :: "string \<Rightarrow> string \<Rightarrow> cloud_event" where
  "finalized bucket name =
     \<lparr>event_type = ''google.cloud.storage.object.v1.finalized'', bucket_name = bucket,
      file_name = name\<rparr>"

text \<open>
  Another invocation that commits an entry of its own between an attempt's download and
  its upload; a call all of whose attempts meet it; and a world whose log object exists.
\<close>

definition rival :: "blob option \<Rightarrow> blob option" where
  "rival ob = Some \<lparr>generation = Suc (current_generation_of ob), body = body_of ob @ ''other''\<rparr>"

definition contended :: audit_env where
  "contended = \<lparr>clock = ''2026-01-01 00:00:00 UTC'', attempts = (\<lambda>attempt. calm\<lparr>between := rival\<rparr>)\<rparr>"

definition logged_world :: world where
  "logged_world = fresh_world\<lparr>remote := [log_key \<mapsto> \<lparr>generation = 1, body = ''old''\<rparr>]\<rparr>"

definition second_call :: "blob option \<Rightarrow> blob option" where
  "second_call ob =
     remote (gcs_log (quiet ''2026-01-01 00:00:02 UTC'') ''second'' ''INFO'' 5
               (fresh_world\<lparr>remote := (\<lambda>k. None)(log_key := ob)\<rparr>)) log_key"

definition racing :: audit_env where
  "racing = \<lparr>clock = ''2026-01-01 00:00:01 UTC'',
             attempts = (\<lambda>attempt. calm\<lparr>between := second_call\<rparr>)\<rparr>"

definition stalled_probe :: env where
  "stalled_probe = ideal_env\<lparr>ffprobe := (\<lambda>content.
      Inl (Exn TimeoutExpired ''Command ffprobe timed out after 30 seconds''))\<rparr>"

definition missing_probe :: env where
  "missing_probe = ideal_env\<lparr>ffprobe := (\<lambda>content.
      Inl (Exn FileNotFoundError ''No such file or directory: ffprobe''))\<rparr>"

text \<open>
  A bucket holding one object; tools that find an audio file corrupt; an audit log whose
  uploads fail for a reason that is not a generation mismatch.
\<close>

definition corrupt_audio :: env where
  "corrupt_audio = ideal_env\<lparr>ffprobe := (\<lambda>content. Inr (1, ''moov atom not found'')),
                            recognize := (\<lambda>uri. Inl (Exn NotFound ''audio not found''))\<rparr>"

definition inbox_world :: "string \<Rightarrow> world" where
  "inbox_world name = fresh_world\<lparr>remote := [(''inbox'', name) \<mapsto> \<lparr>generation = 1, body = ''bytes''\<rparr>]\<rparr>"

definition failing_audit :: audit_env where
  "failing_audit = \<lparr>clock = ''2026-01-01 00:00:00 UTC'',
     attempts = (\<lambda>attempt. calm\<lparr>upload_fault := Some (Exn OtherException ''503 Service Unavailable'')\<rparr>)\<rparr>"

definition deaf_log :: env where
  "deaf_log = ideal_env\<lparr>audit := (\<lambda>st. failing_audit)\<rparr>"



definition interrupted :: audit_env where
  "interrupted =
     \<lparr>clock = ''2026-01-01 00:00:00 UTC'',
      attempts = (\<lambda>attempt. if attempt = 1 then calm\<lparr>between := rival\<rparr> else calm)\<rparr>"

definition shared_log :: env where
  "shared_log = ideal_env\<lparr>audit := (\<lambda>st. interrupted)\<rparr>"

definition inbox_with_log :: "string \<Rightarrow> world" where
  "inbox_with_log name =
     fresh_world\<lparr>remote := [(''inbox'', name) \<mapsto> \<lparr>generation = 1, body = ''bytes''\<rparr>,
                             log_key \<mapsto> \<lparr>generation = 1, body = ''old''\<rparr>]\<rparr>"

section \<open>Paths and extensions\<close>

lemma splitext_parts: "fst (splitext p) @ snd (splitext p) = p"
  by (simp add: splitext_def Let_def)

lemma rfind_lt: "rfind p c < int (length p)"
  by (induction p) (auto simp: Let_def)

lemma rfind_ge: "- 1 \<le> rfind p c"
  by (induction p) (auto simp: Let_def)

lemma rfind_absent: "c \<notin> set p \<Longrightarrow> rfind p c = - 1"
  by (induction p) (auto simp: Let_def)

lemma rfind_append_absent: "c \<notin> set ys \<Longrightarrow> rfind (xs @ ys) c = rfind xs c"
  by (induction xs) (auto simp: Let_def rfind_absent)

lemma rfind_append_hit: "c \<notin> set ys \<Longrightarrow> rfind (xs @ c # ys) c = int (length xs)"
  by (induction xs) (auto simp: Let_def rfind_absent)

text \<open>The loop finds a character other than a dot exactly when one stands in its range.\<close>

lemma skip_leading_dots_iff:
  "0 \<le> i \<Longrightarrow> d \<le> int (length p) \<Longrightarrow>
   skip_leading_dots p i d \<longleftrightarrow> (\<exists>c \<in> set (drop (nat i) (take (nat d) p)). c \<noteq> CHR ''.'')"
proof (induction p i d rule: skip_leading_dots.induct)
  case (1 p i d)
  show ?case
  proof (cases "i < d")
    case False
    then show ?thesis using "1.prems" by (simp add: skip_leading_dots.simps)
  next
    case True
    then have len: "nat i < length p" "nat i < nat d" using "1.prems" by auto
    have inside: "nat i < length (take (nat d) p)"
      using len by simp
    have next_index: "nat (i + 1) = Suc (nat i)"
      using "1.prems" by simp
    have "drop (nat i) (take (nat d) p)
        = take (nat d) p ! nat i # drop (Suc (nat i)) (take (nat d) p)"
      using inside by (rule Cons_nth_drop_Suc [symmetric])
    then have split: "drop (nat i) (take (nat d) p) = p ! nat i # drop (nat (i + 1)) (take (nat d) p)"
      using len next_index by simp
    have one: "take 1 (drop (nat i) p) = [p ! nat i]"
      using len by (simp add: take_Suc_conv_app_nth)
    show ?thesis
    proof (cases "p ! nat i = CHR ''.''")
      case True
      with \<open>i < d\<close> one have "skip_leading_dots p i d = skip_leading_dots p (i + 1) d"
        by (subst skip_leading_dots.simps) simp
      also have "\<dots> \<longleftrightarrow> (\<exists>c \<in> set (drop (nat (i + 1)) (take (nat d) p)). c \<noteq> CHR ''.'')"
        using "1.IH" \<open>i < d\<close> one True "1.prems" by simp
      finally show ?thesis using split True by simp
    next
      case False
      with \<open>i < d\<close> one have "skip_leading_dots p i d"
        by (subst skip_leading_dots.simps) simp
      then show ?thesis using split False by simp
    qed
  qed
qed

text \<open>
  Whatever the stem \<open>s\<close> holds (separators, dots), a suffix \<open>.x\<close> free of dots and
  separators is the extension, as long as the last component of \<open>s\<close> is not made of dots
  only (\<^verbatim>\<open>splitext\<close> takes \<^verbatim>\<open>.bashrc\<close> and \<^verbatim>\<open>...rc\<close> for names without extension).
\<close>

lemma splitext_stem:
  assumes x: "CHR ''.'' \<notin> set x" "CHR ''/'' \<notin> set x"
    and b: "\<exists>c \<in> set (basename s). c \<noteq> CHR ''.''"
  shows "splitext (s @ ''.'' @ x) = (s, ''.'' @ x)"
proof -
  let ?p = "s @ ''.'' @ x"
  have dot: "rfind ?p CHR ''.'' = int (length s)"
    using x rfind_append_hit [of "CHR ''.''" x s] by simp
  have sep: "rfind ?p CHR ''/'' = rfind s CHR ''/''"
    using x rfind_append_absent [of "CHR ''/''" "''.'' @ x" s] by simp
  have lt: "rfind s CHR ''/'' < int (length s)" by (rule rfind_lt)
  have ge: "0 \<le> rfind s CHR ''/'' + 1" using rfind_ge [of s "CHR ''/''"] by simp
  have "skip_leading_dots ?p (rfind s CHR ''/'' + 1) (int (length s))"
    using b skip_leading_dots_iff [OF ge, of "int (length s)" ?p]
    by (simp add: basename_def)
  then show ?thesis
    using dot sep lt by (simp add: splitext_def)
qed

text \<open>
  C8. For every source path \<open>p\<close> with extension \<open>e\<close> (what \<^verbatim>\<open>os.path.splitext\<close> splits
  off), the derived transcript path is \<open>p\<close> with \<open>e\<close> removed and \<open>.txt\<close> appended.
  Separators and dots earlier in the path do not matter: for any stem \<open>s\<close> whose last
  component is not made of dots only and any suffix \<open>.x\<close> with \<open>x\<close> free of dots and
  separators, the extension of \<open>s.x\<close> is \<open>.x\<close> and the derived path is \<open>s.txt\<close>.
\<close>

theorem artifact_naming:
  "(snd (splitext p) = e \<longrightarrow>
      p = fst (splitext p) @ e \<and> processed_blob_name p = fst (splitext p) @ ''.txt'')
   \<and> (CHR ''.'' \<notin> set x \<and> CHR ''/'' \<notin> set x \<and> (\<exists>c \<in> set (basename s). c \<noteq> CHR ''.'') \<longrightarrow>
        snd (splitext (s @ ''.'' @ x)) = ''.'' @ x
        \<and> processed_blob_name (s @ ''.'' @ x) = s @ ''.txt'')"
proof (intro conjI impI)
  assume "snd (splitext p) = e"
  then show "p = fst (splitext p) @ e"
    using splitext_parts [of p] by simp
next
  show "processed_blob_name p = fst (splitext p) @ ''.txt''"
    by (simp add: processed_blob_name_def)
next
  assume h: "CHR ''.'' \<notin> set x \<and> CHR ''/'' \<notin> set x \<and> (\<exists>c \<in> set (basename s). c \<noteq> CHR ''.'')"
  then have "splitext (s @ ''.'' @ x) = (s, ''.'' @ x)"
    by (intro splitext_stem) auto
  then show "snd (splitext (s @ ''.'' @ x)) = ''.'' @ x"
    and "processed_blob_name (s @ ''.'' @ x) = s @ ''.txt''"
    by (simp_all add: processed_blob_name_def)
qed

theorem artifact_naming_witness:
  "snd (splitext ''caseA/v1.2/inter.view.wav'') = ''.wav''
   \<and> ''caseA/v1.2/inter.view.wav'' = fst (splitext ''caseA/v1.2/inter.view.wav'') @ ''.wav''
   \<and> processed_blob_name ''caseA/v1.2/inter.view.wav'' = ''caseA/v1.2/inter.view.txt''"
proof -
  have base: "basename ''caseA/v1.2/inter.view'' = ''inter.view''"
    by code_simp
  have hyp: "CHR ''.'' \<notin> set ''wav'' \<and> CHR ''/'' \<notin> set ''wav''
    \<and> (\<exists>c \<in> set (basename ''caseA/v1.2/inter.view''). c \<noteq> CHR ''.'')"
    by (simp add: base)
  have ext: "snd (splitext ''caseA/v1.2/inter.view.wav'') = ''.wav''"
    by code_simp
  from artifact_naming [of "''caseA/v1.2/inter.view.wav''" "''.wav''" "''wav''"
      "''caseA/v1.2/inter.view''"] hyp ext
  show ?thesis by simp
qed

section \<open>The validator's dispatch\<close>

lemma lower_lower: "lower (lower e) = lower e"
proof -
  have "lower_char (lower_char c) = lower_char c" for c
  proof -
    have "of_char (char_of (of_char c + 32 :: nat)) = (of_char c + 32 :: nat)"
      if "(of_char c :: nat) < 224"
      using that by simp
    then show ?thesis
      by (auto simp: lower_char_def Let_def)
  qed
  then show ?thesis by (simp add: lower_def)
qed

text \<open>
  C7. The branch of the validator is fixed by the lower-cased extension, and the
  conditions of the branches exclude one another: a media extension gives the media
  check, an image extension the image check, \<open>.docx\<close> and \<open>.pdf\<close> theirs, whatever the
  case the name is written in; every other extension gives the verdict invalid with the
  message that the type is unsupported.
\<close>

theorem validator_dispatch:
  "snd (splitext name) = e \<Longrightarrow>
   get_file_extension name = lower e
   \<and> (lower e \<in> set media_extensions \<longrightarrow>
        validate_file_helper env w local_path name = validate_media env w local_path name)
   \<and> (lower e \<in> set image_extensions \<longrightarrow>
        validate_file_helper env w local_path name = Inr (validate_image env w local_path))
   \<and> (lower e = ''.docx'' \<longrightarrow>
        validate_file_helper env w local_path name = Inr (validate_docx env w local_path))
   \<and> (lower e = ''.pdf'' \<longrightarrow>
        validate_file_helper env w local_path name = Inr (validate_pdf env w local_path))
   \<and> (lower e \<notin> set media_extensions \<union> set image_extensions \<union> {''.docx'', ''.pdf''} \<longrightarrow>
        validate_file_helper env w local_path name
          = Inr (False, ''Unsupported file type for '' @ name @ ''; skipping validation.''))"
  by (auto simp: validate_file_helper_def get_file_extension_def Let_def
      media_extensions_def image_extensions_def)

theorem validator_dispatch_witness:
  "validate_file_helper ideal_env fresh_world ''/tmp/Scan.PDF'' ''caseA/Scan.PDF''
     = Inr (validate_pdf ideal_env fresh_world ''/tmp/Scan.PDF'')
   \<and> validate_file_helper ideal_env fresh_world ''/tmp/clip.Mp3'' ''caseA/clip.Mp3''
     = validate_media ideal_env fresh_world ''/tmp/clip.Mp3'' ''caseA/clip.Mp3''
   \<and> validate_file_helper ideal_env fresh_world ''/tmp/notes.xyz'' ''caseA/notes.xyz''
     = Inr (False, ''Unsupported file type for caseA/notes.xyz; skipping validation.'')"
proof -
  have pdf: "snd (splitext ''caseA/Scan.PDF'') = ''.PDF''" by code_simp
  have mp3: "snd (splitext ''caseA/clip.Mp3'') = ''.Mp3''" by code_simp
  have xyz: "snd (splitext ''caseA/notes.xyz'') = ''.xyz''" by code_simp
  have low: "lower ''.PDF'' = ''.pdf''" "lower ''.Mp3'' = ''.mp3''" "lower ''.xyz'' = ''.xyz''"
    by code_simp+
  show ?thesis
    using validator_dispatch [OF pdf, of ideal_env fresh_world "''/tmp/Scan.PDF''"]
      validator_dispatch [OF mp3, of ideal_env fresh_world "''/tmp/clip.Mp3''"]
      validator_dispatch [OF xyz, of ideal_env fresh_world "''/tmp/notes.xyz''"]
    by (simp add: low media_extensions_def image_extensions_def)
qed

section \<open>The audit logger, attempt by attempt\<close>

lemma try_block_read_fault:
  "read_fault a = Some e \<Longrightarrow> try_block a le k w = (Some e, others (before a) w)"
  by (simp add: try_block_def Let_def)

lemma try_block_upload_fault:
  "read_fault a = None \<Longrightarrow> upload_fault a = Some e \<Longrightarrow>
   try_block a le k w =
     (Some e, w\<lparr>remote := (remote w)(log_key := between a (before a (remote w log_key))),
               tmp := (tmp w)(LOCAL_LOG_PATH \<mapsto> staged a le w)\<rparr>)"
  by (cases "before a (remote w log_key)")
     (simp_all add: try_block_def Let_def others_def write_file_def append_file_def staged_def body_of_def)

lemma try_block_accepted:
  assumes "read_fault a = None" "upload_fault a = None"
    and "current_generation_of (before a (remote w log_key)) = 0 \<or>
         current_generation_of (between a (before a (remote w log_key)))
           = current_generation_of (before a (remote w log_key))"
  shows "try_block a le k w =
     (None, w\<lparr>remote := (remote w)(log_key \<mapsto>
                 \<lparr>generation = Suc (current_generation_of (between a (before a (remote w log_key)))),
                  body = staged a le w\<rparr>),
               tmp := (tmp w)(LOCAL_LOG_PATH \<mapsto> staged a le w),
               trace := trace w @ [Logger INFO (''Successfully appended to logs.txt on attempt '' @ str_int k)]\<rparr>)"
  using assms
  by (cases "before a (remote w log_key)")
     (auto simp add: try_block_def Let_def others_def write_file_def append_file_def read_file_def
        emit_def upload_def staged_def body_of_def)

lemma try_block_rejected:
  assumes "read_fault a = None" "upload_fault a = None"
    and "0 < current_generation_of (before a (remote w log_key))"
    and "current_generation_of (between a (before a (remote w log_key)))
           \<noteq> current_generation_of (before a (remote w log_key))"
  shows "try_block a le k w =
     (Some (Exn PreconditionFailed ''conditionNotMet''),
      w\<lparr>remote := (remote w)(log_key := between a (before a (remote w log_key))),
        tmp := (tmp w)(LOCAL_LOG_PATH \<mapsto> staged a le w)\<rparr>)"
  using assms
  by (cases "before a (remote w log_key)")
     (auto simp add: try_block_def Let_def others_def write_file_def append_file_def read_file_def
        emit_def upload_def staged_def body_of_def)

text \<open>The four ways a try block can go.\<close>

lemma try_block_cases:
  obtains (read) e where "read_fault a = Some e"
  | (up) e where "read_fault a = None" "upload_fault a = Some e"
  | (acc) "read_fault a = None" "upload_fault a = None"
      "current_generation_of (before a (remote w log_key)) = 0 \<or>
         current_generation_of (between a (before a (remote w log_key)))
           = current_generation_of (before a (remote w log_key))"
  | (rej) "read_fault a = None" "upload_fault a = None"
      "0 < current_generation_of (before a (remote w log_key))"
      "current_generation_of (between a (before a (remote w log_key)))
           \<noteq> current_generation_of (before a (remote w log_key))"
  by (cases "read_fault a"; cases "upload_fault a") auto

lemma try_block_outcome:
  "(case try_block a le k w of
      (None, w') \<Rightarrow>
        remote w' log_key
          = Some \<lparr>generation = Suc (current_generation_of (between a (before a (remote w log_key)))),
                  body = body_of (before a (remote w log_key)) @ le\<rparr>
        \<and> accepted (trace w') = Suc (accepted (trace w))
    | (Some x, w') \<Rightarrow>
        (remote w' log_key = before a (remote w log_key)
         \<or> remote w' log_key = between a (before a (remote w log_key)))
        \<and> trace w' = trace w)"
proof (cases rule: try_block_cases [where a=a and w=w])
  case (read e)
  then show ?thesis by (simp add: try_block_read_fault others_def)
next
  case (up e)
  then show ?thesis by (simp add: try_block_upload_fault)
next
  case acc
  then show ?thesis by (simp add: try_block_accepted [where a=a and w=w and le=le and k=k] staged_def accepted_def)
next
  case rej
  then show ?thesis by (simp add: try_block_rejected [where a=a and w=w and le=le and k=k])
qed

lemma try_statement_outcome:
  "(case try_statement a le k w of
      (Return, w') \<Rightarrow>
        (try_block a le k w = (None, w') \<and> accepted (trace w') = Suc (accepted (trace w)))
        \<or> accepted (trace w') = accepted (trace w)
    | (Continue, w') \<Rightarrow>
        (\<exists>x v. try_block a le k w = (Some x, v) \<and> class_of x = PreconditionFailed)
        \<and> trace w' = trace w @ [Logger WARNING (''Generation mismatch on attempt '' @ str_int k
                                  @ '', retrying...''), Sleep k]
    | (Fallthrough, w') \<Rightarrow> False)"
proof (cases "try_block a le k w")
  case (Pair r v)
  show ?thesis
  proof (cases r)
    case None
    with Pair try_block_outcome [where a=a and le=le and k=k and w=w] show ?thesis
      by (simp add: try_statement_def)
  next
    case (Some x)
    with Pair try_block_outcome [where a=a and le=le and k=k and w=w] show ?thesis
      by (simp add: try_statement_def emit_def accepted_def)
  qed
qed

lemma accepted_warning [simp]:
  "accepted (tr @ [Logger WARNING m, Sleep k]) = accepted tr"
  by (simp add: accepted_def)

lemma gcs_log_loop_outcome:
  "accepted (trace (gcs_log_loop env le ks w)) = accepted (trace w)
   \<or> (\<exists>k v. k \<in> set ks \<and> accepted (trace v) = accepted (trace w)
         \<and> try_block (env k) le k v = (None, gcs_log_loop env le ks w)
         \<and> accepted (trace (gcs_log_loop env le ks w)) = Suc (accepted (trace w)))"
proof (induction ks arbitrary: w)
  case Nil
  then show ?case by simp
next
  case (Cons k ks)
  obtain c w' where ts: "try_statement (env k) le k w = (c, w')"
    by (cases "try_statement (env k) le k w")
  show ?case
  proof (cases c)
    case Return
    with ts try_statement_outcome [where a="env k" and le=le and k=k and w=w] show ?thesis
      by auto
  next
    case Continue
    with ts try_statement_outcome [where a="env k" and le=le and k=k and w=w]
    have same: "accepted (trace w') = accepted (trace w)" by auto
    from Continue ts have step: "gcs_log_loop env le (k # ks) w = gcs_log_loop env le ks w'"
      by simp
    from Cons.IH [of w'] show ?thesis
      unfolding step same by auto
  next
    case Fallthrough
    with ts try_statement_outcome [where a="env k" and le=le and k=k and w=w] show ?thesis by simp
  qed
qed

lemma str_int_1: "str_int 1 = ''1''" by code_simp

lemma gcs_log_first_attempt:
  assumes "1 \<le> n" "try_block (attempts env 1) (format_entry (clock env) sev m) 1 w = (None, w')"
  shows "gcs_log env m sev n w = w'"
proof -
  have "[1..n] = 1 # [2..n]" using assms(1) upto_rec1 [of 1 n] by simp
  then show ?thesis using assms(2) by (simp add: gcs_log_def try_statement_def)
qed

lemma gcs_log_calm:
  assumes "1 \<le> n" "attempts env 1 = calm"
  shows "gcs_log env m sev n w =
     w\<lparr>remote := (remote w)(log_key \<mapsto>
          \<lparr>generation = Suc (current_generation_of (remote w log_key)),
           body = body_of (remote w log_key) @ format_entry (clock env) sev m\<rparr>),
       tmp := (tmp w)(LOCAL_LOG_PATH \<mapsto> body_of (remote w log_key) @ format_entry (clock env) sev m),
       trace := trace w @ [Logger INFO ''Successfully appended to logs.txt on attempt 1'']\<rparr>"
proof -
  have "try_block calm (format_entry (clock env) sev m) 1 w = (None,
     w\<lparr>remote := (remote w)(log_key \<mapsto>
          \<lparr>generation = Suc (current_generation_of (remote w log_key)),
           body = body_of (remote w log_key) @ format_entry (clock env) sev m\<rparr>),
       tmp := (tmp w)(LOCAL_LOG_PATH \<mapsto> body_of (remote w log_key) @ format_entry (clock env) sev m),
       trace := trace w @ [Logger INFO ''Successfully appended to logs.txt on attempt 1'']\<rparr>)"
    using try_block_accepted [where a=calm and w=w and le="format_entry (clock env) sev m" and k=1]
    by (simp add: calm_def staged_def str_int_1)
  then show ?thesis using assms gcs_log_first_attempt by simp
qed

lemma second_call_None:
  "second_call None = Some \<lparr>generation = 1, body = ''[2026-01-01 00:00:02 UTC] [INFO]: second'' @ [CHR 0x0A]\<rparr>"
  by (simp add: second_call_def gcs_log_calm quiet_def fresh_world_def body_of_def
      current_generation_of_def format_entry_def)

section \<open>Two calls racing to create the log\<close>

text \<open>
  C1. With no log object yet, a second invocation runs its whole \<^verbatim>\<open>gcs_log\<close> between
  the first call's existence check and the first call's upload. Both saw generation 0, so
  both upload with no precondition (line 309 sets one only when the generation is
  positive). The second call's upload is accepted and creates the log with its entry; the
  first call's upload is accepted as well, on its first attempt, and replaces the log:
  the entry the second call committed is gone, and the first call wrote without a
  precondition on an object that existed.
\<close>

theorem creation_race_loses_entry:
  "second_call None
     = Some \<lparr>generation = 1, body = ''[2026-01-01 00:00:02 UTC] [INFO]: second'' @ [CHR 0x0A]\<rparr>
   \<and> remote (gcs_log racing ''first'' ''INFO'' 5 fresh_world) log_key
     = Some \<lparr>generation = 2, body = ''[2026-01-01 00:00:01 UTC] [INFO]: first'' @ [CHR 0x0A]\<rparr>
   \<and> trace (gcs_log racing ''first'' ''INFO'' 5 fresh_world)
     = [Logger INFO ''Successfully appended to logs.txt on attempt 1'']"
proof -
  let ?a = "calm\<lparr>between := second_call\<rparr>"
  let ?le = "format_entry ''2026-01-01 00:00:01 UTC'' ''INFO'' ''first''"
  have absent: "remote fresh_world log_key = None" by (simp add: fresh_world_def)
  have "try_block ?a ?le 1 fresh_world =
     (None, fresh_world\<lparr>remote := (remote fresh_world)(log_key \<mapsto>
                 \<lparr>generation = Suc (current_generation_of (second_call None)),
                  body = staged ?a ?le fresh_world\<rparr>),
               tmp := (tmp fresh_world)(LOCAL_LOG_PATH \<mapsto> staged ?a ?le fresh_world),
               trace := trace fresh_world @ [Logger INFO (''Successfully appended to logs.txt on attempt '' @ str_int 1)]\<rparr>)"
    using try_block_accepted [where a="?a" and w=fresh_world and le="?le" and k=1] absent
    by (simp add: calm_def current_generation_of_def)
  then have run: "gcs_log racing ''first'' ''INFO'' 5 fresh_world =
     fresh_world\<lparr>remote := (remote fresh_world)(log_key \<mapsto>
                 \<lparr>generation = Suc (current_generation_of (second_call None)),
                  body = staged ?a ?le fresh_world\<rparr>),
               tmp := (tmp fresh_world)(LOCAL_LOG_PATH \<mapsto> staged ?a ?le fresh_world),
               trace := trace fresh_world @ [Logger INFO (''Successfully appended to logs.txt on attempt '' @ str_int 1)]\<rparr>"
    by (intro gcs_log_first_attempt) (simp_all add: racing_def)
  show ?thesis
    unfolding run
    by (simp add: second_call_None current_generation_of_def staged_def calm_def absent body_of_def
        format_entry_def str_int_1 fresh_world_def)
qed

section \<open>A call that loses every attempt\<close>

lemma contended_step:
  assumes "0 < current_generation_of (remote w log_key)"
  shows "try_statement (calm\<lparr>between := rival\<rparr>) le k w =
     (Continue,
      w\<lparr>remote := (remote w)(log_key := rival (remote w log_key)),
        tmp := (tmp w)(LOCAL_LOG_PATH \<mapsto> body_of (remote w log_key) @ le),
        trace := trace w @ [Logger WARNING (''Generation mismatch on attempt '' @ str_int k
                                  @ '', retrying...''), Sleep k]\<rparr>)"
proof -
  have "try_block (calm\<lparr>between := rival\<rparr>) le k w =
     (Some (Exn PreconditionFailed ''conditionNotMet''),
      w\<lparr>remote := (remote w)(log_key := rival (remote w log_key)),
        tmp := (tmp w)(LOCAL_LOG_PATH \<mapsto> body_of (remote w log_key) @ le)\<rparr>)"
    using try_block_rejected [where a="calm\<lparr>between := rival\<rparr>" and w=w and le=le and k=k] assms
    by (simp add: calm_def rival_def current_generation_of_def staged_def)
  then show ?thesis by (simp add: try_statement_def emit_def)
qed

lemma contended_loop:
  "0 < current_generation_of (remote w log_key) \<Longrightarrow>
   trace (gcs_log_loop (\<lambda>attempt. calm\<lparr>between := rival\<rparr>) le ks w)
     = trace w @ concat (map (\<lambda>k. [Logger WARNING (''Generation mismatch on attempt '' @ str_int k
                                  @ '', retrying...''), Sleep k]) ks)"
proof (induction ks arbitrary: w)
  case Nil
  then show ?case by simp
next
  case (Cons k ks)
  let ?w = "w\<lparr>remote := (remote w)(log_key := rival (remote w log_key)),
        tmp := (tmp w)(LOCAL_LOG_PATH \<mapsto> body_of (remote w log_key) @ le),
        trace := trace w @ [Logger WARNING (''Generation mismatch on attempt '' @ str_int k
                                  @ '', retrying...''), Sleep k]\<rparr>"
  have "0 < current_generation_of (remote ?w log_key)"
    by (simp add: rival_def current_generation_of_def)
  from Cons.IH [OF this] contended_step [OF Cons.prems, of le k]
  show ?case by simp
qed

lemma upto_1_5: "[1..5] = [1, 2, 3, 4, 5::int]" by code_simp
lemma str_int_digits: "str_int 2 = ''2''" "str_int 3 = ''3''" "str_int 4 = ''4''" "str_int 5 = ''5''"
  by code_simp+

text \<open>
  C5. With \<^verbatim>\<open>max_retries = 5\<close> and another invocation committing between the download
  and the upload of every attempt, each attempt ends in the handler of
  \<^verbatim>\<open>PreconditionFailed\<close>: a warning, a wait of \<open>0.5 * attempt\<close> seconds, the next
  attempt. After the fifth the loop is over and the call returns: the trace holds the
  five warnings and the five growing waits and no line at ERROR level. Line 325, which
  would report the exhausted retries, stands inside the loop behind a \<^verbatim>\<open>try\<close> statement
  all of whose paths return or continue, and is never reached.
\<close>

theorem exhausted_retries_leave_no_error_line:
  "trace (gcs_log contended ''entry'' ''INFO'' 5 logged_world)
     = [Logger WARNING ''Generation mismatch on attempt 1, retrying...'', Sleep 1,
        Logger WARNING ''Generation mismatch on attempt 2, retrying...'', Sleep 2,
        Logger WARNING ''Generation mismatch on attempt 3, retrying...'', Sleep 3,
        Logger WARNING ''Generation mismatch on attempt 4, retrying...'', Sleep 4,
        Logger WARNING ''Generation mismatch on attempt 5, retrying...'', Sleep 5]
   \<and> filter is_error (trace (gcs_log contended ''entry'' ''INFO'' 5 logged_world)) = []"
proof -
  have "0 < current_generation_of (remote logged_world log_key)"
    by (simp add: logged_world_def current_generation_of_def)
  then have loop: "trace (gcs_log_loop (\<lambda>attempt. calm\<lparr>between := rival\<rparr>)
        (format_entry ''2026-01-01 00:00:00 UTC'' ''INFO'' ''entry'') [1, 2, 3, 4, 5] logged_world)
     = trace logged_world @ concat (map (\<lambda>k. [Logger WARNING (''Generation mismatch on attempt '' @ str_int k
                                  @ '', retrying...''), Sleep k]) [1, 2, 3, 4, 5])"
    by (rule contended_loop)
  have call: "gcs_log contended ''entry'' ''INFO'' 5 logged_world
     = gcs_log_loop (\<lambda>attempt. calm\<lparr>between := rival\<rparr>)
        (format_entry ''2026-01-01 00:00:00 UTC'' ''INFO'' ''entry'') [1, 2, 3, 4, 5] logged_world"
    by (simp only: gcs_log_def contended_def upto_1_5 audit_env.select_convs)
  have "trace (gcs_log contended ''entry'' ''INFO'' 5 logged_world)
     = trace logged_world @ concat (map (\<lambda>k. [Logger WARNING (''Generation mismatch on attempt '' @ str_int k
                                  @ '', retrying...''), Sleep k]) [1, 2, 3, 4, 5])"
    by (simp only: call loop)
  then have tr: "trace (gcs_log contended ''entry'' ''INFO'' 5 logged_world)
     = [Logger WARNING ''Generation mismatch on attempt 1, retrying...'', Sleep 1,
        Logger WARNING ''Generation mismatch on attempt 2, retrying...'', Sleep 2,
        Logger WARNING ''Generation mismatch on attempt 3, retrying...'', Sleep 3,
        Logger WARNING ''Generation mismatch on attempt 4, retrying...'', Sleep 4,
        Logger WARNING ''Generation mismatch on attempt 5, retrying...'', Sleep 5]"
    by (simp add: str_int_1 str_int_digits logged_world_def fresh_world_def)
  show ?thesis unfolding tr by simp
qed

section \<open>What \<^verbatim>\<open>gcs_log\<close> leaves alone\<close>

lemma try_block_frame:
  "k \<noteq> log_key \<Longrightarrow> remote (snd (try_block a le i w)) k = remote w k"
proof (cases rule: try_block_cases [where a=a and w=w])
  case (read e)
  assume "k \<noteq> log_key"
  with read show ?thesis by (simp add: try_block_read_fault others_def)
next
  case (up e)
  assume "k \<noteq> log_key"
  with up show ?thesis by (simp add: try_block_upload_fault)
next
  case acc
  assume "k \<noteq> log_key"
  with acc show ?thesis by (simp add: try_block_accepted [where a=a and w=w and le=le and k=i])
next
  case rej
  assume "k \<noteq> log_key"
  with rej show ?thesis by (simp add: try_block_rejected [where a=a and w=w and le=le and k=i])
qed

lemma try_statement_frame:
  "k \<noteq> log_key \<Longrightarrow> remote (snd (try_statement a le i w)) k = remote w k"
  using try_block_frame [of k a le i w]
  by (cases "try_block a le i w") (auto simp: try_statement_def emit_def split: option.splits)

lemma emit_remote [simp]: "remote (emit e w) = remote w"
  by (simp add: emit_def)

lemma gcs_log_loop_frame:
  "k \<noteq> log_key \<Longrightarrow> remote (gcs_log_loop env le ks w) k = remote w k"
proof (induction ks arbitrary: w)
  case Nil
  then show ?case by simp
next
  case (Cons i ks)
  obtain c w' where ts: "try_statement (env i) le i w = (c, w')"
    by (cases "try_statement (env i) le i w")
  with try_statement_frame [OF Cons.prems, of "env i" le i w]
  have "remote w' k = remote w k" by simp
  with ts Cons.IH [OF Cons.prems] show ?case
    by (cases c) simp_all
qed

lemma gcs_log_frame:
  "k \<noteq> log_key \<Longrightarrow> remote (gcs_log env m sev n w) k = remote w k"
  by (simp add: gcs_log_def gcs_log_loop_frame)

lemma root_name_not_log_key: "CHR ''/'' \<notin> set name \<Longrightarrow> (bucket, name) \<noteq> log_key"
  by (auto simp: log_key_def LOG_FOLDER_def LOG_FILE_NAME_def)

section \<open>One copy of the entry per call\<close>

lemma copies_short:
  "e \<noteq> [] \<Longrightarrow> length d < length e \<Longrightarrow> copies e (d @ e) = 1"
proof (induction d)
  case Nil
  then show ?case by (simp add: copies.simps [of e e] copies.simps [of e "[]"])
next
  case (Cons x d)
  show ?case
  proof (cases "take (length e) ((x # d) @ e) = e")
    case True
    have "length (drop (length e) ((x # d) @ e)) < length e"
      using Cons.prems by simp
    then have "copies e (drop (length e) ((x # d) @ e)) = 0"
      using Cons.prems(1) by (subst copies.simps) simp
    with True Cons.prems show ?thesis
      by (subst copies.simps) simp
  next
    case False
    with Cons show ?thesis
      by (subst copies.simps) simp
  qed
qed

lemma copies_append_self:
  "e \<noteq> [] \<Longrightarrow> copies e (d @ e) = Suc (copies e d)"
proof (induction e d rule: copies.induct)
  case (1 e s)
  show ?case
  proof (cases "length s < length e")
    case True
    with "1.prems" show ?thesis
      by (simp add: copies_short copies.simps [of e s])
  next
    case long: False
    show ?thesis
    proof (cases "take (length e) s = e")
      case True
      with long "1.prems" "1.IH"(1) have "copies e (drop (length e) s @ e) = Suc (copies e (drop (length e) s))"
        by simp
      with True long "1.prems" show ?thesis
        by (simp add: copies.simps [of e s] copies.simps [of e "s @ e"])
    next
      case False
      from long "1.prems" have ne: "s \<noteq> []" by auto
      with False long "1.prems" "1.IH"(2) have "copies e (tl s @ e) = Suc (copies e (tl s))"
        by simp
      with False long "1.prems" ne show ?thesis
        by (simp add: copies.simps [of e s] copies.simps [of e "s @ e"])
    qed
  qed
qed

lemma format_entry_nonempty: "format_entry t sev m \<noteq> []"
  by (simp add: format_entry_def)

lemma try_statement_log:
  "(case try_statement a le k w of
      (Return, w') \<Rightarrow>
        (remote w' log_key
           = Some \<lparr>generation = Suc (current_generation_of (between a (before a (remote w log_key)))),
                   body = body_of (before a (remote w log_key)) @ le\<rparr>
         \<and> accepted (trace w') = Suc (accepted (trace w)))
        \<or> (remote w' log_key = foreign_step a (remote w log_key)
            \<and> accepted (trace w') = accepted (trace w))
    | (Continue, w') \<Rightarrow>
        remote w' log_key = foreign_step a (remote w log_key)
        \<and> accepted (trace w') = accepted (trace w)
    | (Fallthrough, w') \<Rightarrow> False)"
proof (cases rule: try_block_cases [where a=a and w=w])
  case (read e)
  then show ?thesis
    by (simp add: try_statement_def try_block_read_fault others_def foreign_step_def emit_def
        accepted_def)
next
  case (up e)
  then show ?thesis
    by (simp add: try_statement_def try_block_upload_fault foreign_step_def emit_def accepted_def)
next
  case acc
  then show ?thesis
    by (simp add: try_statement_def try_block_accepted [where a=a and w=w and le=le and k=k]
        staged_def accepted_def)
next
  case rej
  then show ?thesis
    by (simp add: try_statement_def try_block_rejected [where a=a and w=w and le=le and k=k]
        foreign_step_def emit_def accepted_def)
qed

lemma gcs_log_loop_log:
  "(\<exists>pre k post. ks = pre @ k # post
       \<and> remote (gcs_log_loop env le ks w) log_key
           = Some \<lparr>generation = Suc (current_generation_of
                      (between (env k) (before (env k) (foreign env pre (remote w log_key))))),
                   body = body_of (before (env k) (foreign env pre (remote w log_key))) @ le\<rparr>
       \<and> accepted (trace (gcs_log_loop env le ks w)) = Suc (accepted (trace w)))
   \<or> (\<exists>pre post. ks = pre @ post
         \<and> remote (gcs_log_loop env le ks w) log_key = foreign env pre (remote w log_key)
         \<and> accepted (trace (gcs_log_loop env le ks w)) = accepted (trace w))"
proof (induction ks arbitrary: w)
  case Nil
  then show ?case by simp
next
  case (Cons i ks)
  obtain c w' where ts: "try_statement (env i) le i w = (c, w')"
    by (cases "try_statement (env i) le i w")
  note here = try_statement_log [where a="env i" and le=le and k=i and w=w, unfolded ts, simplified]
  show ?case
  proof (cases c)
    case Return
    with ts have run: "gcs_log_loop env le (i # ks) w = w'" by simp
    from here Return consider
      (acc) "remote w' log_key
           = Some \<lparr>generation = Suc (current_generation_of (between (env i) (before (env i) (remote w log_key)))),
                   body = body_of (before (env i) (remote w log_key)) @ le\<rparr>"
         "accepted (trace w') = Suc (accepted (trace w))"
      | (gave_up) "remote w' log_key = foreign_step (env i) (remote w log_key)"
          "accepted (trace w') = accepted (trace w)"
      by auto
    then show ?thesis
    proof cases
      case acc
      have "i # ks = [] @ i # ks" by simp
      with acc show ?thesis unfolding run
        by (intro disjI1 exI [of _ "[]"] exI [of _ i] exI [of _ ks]) simp
    next
      case gave_up
      have "i # ks = [i] @ ks" by simp
      with gave_up show ?thesis unfolding run
        by (intro disjI2 exI [of _ "[i]"] exI [of _ ks]) simp
    qed
  next
    case Continue
    with ts have run: "gcs_log_loop env le (i # ks) w = gcs_log_loop env le ks w'" by simp
    from here Continue have step: "remote w' log_key = foreign_step (env i) (remote w log_key)"
      and same: "accepted (trace w') = accepted (trace w)" by auto
    from Cons.IH [of w'] show ?thesis
    proof (elim disjE exE conjE)
      fix pre k post
      assume "ks = pre @ k # post"
        and "remote (gcs_log_loop env le ks w') log_key
           = Some \<lparr>generation = Suc (current_generation_of
                      (between (env k) (before (env k) (foreign env pre (remote w' log_key))))),
                   body = body_of (before (env k) (foreign env pre (remote w' log_key))) @ le\<rparr>"
        and "accepted (trace (gcs_log_loop env le ks w')) = Suc (accepted (trace w'))"
      then show ?thesis unfolding run step same
        by (intro disjI1 exI [of _ "i # pre"] exI [of _ k] exI [of _ post]) simp
    next
      fix pre post
      assume "ks = pre @ post"
        and "remote (gcs_log_loop env le ks w') log_key = foreign env pre (remote w' log_key)"
        and "accepted (trace (gcs_log_loop env le ks w')) = accepted (trace w')"
      then show ?thesis unfolding run step same
        by (intro disjI2 exI [of _ "i # pre"] exI [of _ post]) simp
    qed
  next
    case Fallthrough
    with here show ?thesis by simp
  qed
qed

lemma gcs_log_second_attempt:
  assumes "2 \<le> n"
    and "try_statement (attempts env 1) (format_entry (clock env) sev m) 1 w = (Continue, w1)"
    and "try_statement (attempts env 2) (format_entry (clock env) sev m) 2 w1 = (Return, w2)"
  shows "gcs_log env m sev n w = w2"
proof -
  have "[1..n] = 1 # 2 # [3..n]"
    using assms(1) upto_rec1 [of 1 n] upto_rec1 [of 2 n] by simp
  then show ?thesis using assms(2,3) by (simp add: gcs_log_def)
qed

lemma rejected_step:
  assumes "read_fault a = None" "upload_fault a = None"
    and "0 < current_generation_of (before a (remote w log_key))"
    and "current_generation_of (between a (before a (remote w log_key)))
           \<noteq> current_generation_of (before a (remote w log_key))"
  shows "try_statement a le k w =
     (Continue,
      w\<lparr>remote := (remote w)(log_key := between a (before a (remote w log_key))),
        tmp := (tmp w)(LOCAL_LOG_PATH \<mapsto> staged a le w),
        trace := trace w @ [Logger WARNING (''Generation mismatch on attempt '' @ str_int k
                                  @ '', retrying...''), Sleep k]\<rparr>)"
  using try_block_rejected [OF assms, of le k]
  by (simp add: try_statement_def emit_def)

lemma accepted_step:
  assumes "read_fault a = None" "upload_fault a = None"
    and "current_generation_of (before a (remote w log_key)) = 0 \<or>
         current_generation_of (between a (before a (remote w log_key)))
           = current_generation_of (before a (remote w log_key))"
  shows "try_statement a le k w =
     (Return, w\<lparr>remote := (remote w)(log_key \<mapsto>
                 \<lparr>generation = Suc (current_generation_of (between a (before a (remote w log_key)))),
                  body = staged a le w\<rparr>),
               tmp := (tmp w)(LOCAL_LOG_PATH \<mapsto> staged a le w),
               trace := trace w @ [Logger INFO (''Successfully appended to logs.txt on attempt '' @ str_int k)]\<rparr>)"
  using try_block_accepted [OF assms, of le k]
  by (simp add: try_statement_def)

text \<open>A call whose first attempt loses against another invocation and whose second wins.\<close>

lemma second_attempt_run:
  assumes first: "attempts env 1 = calm\<lparr>between := f\<rparr>" and second: "attempts env 2 = calm"
    and exists: "0 < current_generation_of (remote w log_key)"
    and moved: "current_generation_of (f (remote w log_key)) \<noteq> current_generation_of (remote w log_key)"
  shows "remote (gcs_log env m sev 5 w) log_key
     = Some \<lparr>generation = Suc (current_generation_of (f (remote w log_key))),
             body = body_of (f (remote w log_key)) @ format_entry (clock env) sev m\<rparr>"
proof -
  let ?le = "format_entry (clock env) sev m"
  let ?w1 = "w\<lparr>remote := (remote w)(log_key := f (remote w log_key)),
        tmp := (tmp w)(LOCAL_LOG_PATH \<mapsto> staged (calm\<lparr>between := f\<rparr>) ?le w),
        trace := trace w @ [Logger WARNING (''Generation mismatch on attempt '' @ str_int 1
                                  @ '', retrying...''), Sleep 1]\<rparr>"
  let ?w2 = "?w1\<lparr>remote := (remote ?w1)(log_key \<mapsto>
                 \<lparr>generation = Suc (current_generation_of (between calm (before calm (remote ?w1 log_key)))),
                  body = staged calm ?le ?w1\<rparr>),
               tmp := (tmp ?w1)(LOCAL_LOG_PATH \<mapsto> staged calm ?le ?w1),
               trace := trace ?w1 @ [Logger INFO (''Successfully appended to logs.txt on attempt '' @ str_int 2)]\<rparr>"
  have one: "try_statement (attempts env 1) ?le 1 w = (Continue, ?w1)"
    unfolding first
    using exists moved rejected_step [where a="calm\<lparr>between := f\<rparr>" and w=w and le="?le" and k=1]
    by (simp add: calm_def)
  have two: "try_statement (attempts env 2) ?le 2 ?w1 = (Return, ?w2)"
    unfolding second
    using accepted_step [where a=calm and w="?w1" and le="?le" and k=2]
    by (simp add: calm_def)
  have "gcs_log env m sev 5 w = ?w2"
    using one two by (intro gcs_log_second_attempt) simp_all
  then show ?thesis
    by (simp add: staged_def calm_def)
qed

lemma audit_append_facts:
  "(\<exists>pre k post. [1..max_retries] = pre @ k # post
          \<and> body_of (remote (gcs_log env message severity max_retries w) log_key)
              = body_of (downloaded (attempts env) pre k (remote w log_key))
                  @ format_entry (clock env) severity message
          \<and> copies (format_entry (clock env) severity message)
               (body_of (remote (gcs_log env message severity max_retries w) log_key))
              = Suc (copies (format_entry (clock env) severity message)
                       (body_of (downloaded (attempts env) pre k (remote w log_key))))
          \<and> accepted (trace (gcs_log env message severity max_retries w))
              = Suc (accepted (trace w)))
       \<or> (\<exists>pre post. [1..max_retries] = pre @ post
            \<and> remote (gcs_log env message severity max_retries w) log_key
                = foreign (attempts env) pre (remote w log_key)
            \<and> accepted (trace (gcs_log env message severity max_retries w))
                = accepted (trace w))"
proof -
  let ?e = "format_entry (clock env) severity message"
  let ?R = "gcs_log env message severity max_retries w"
  from gcs_log_loop_log [of "[1..max_retries]" "attempts env" ?e w]
  show ?thesis
  proof (elim disjE exE conjE)
    fix pre k post
    assume split: "[1..max_retries] = pre @ k # post"
      and log: "remote (gcs_log_loop (attempts env) ?e [1..max_retries] w) log_key
           = Some \<lparr>generation = Suc (current_generation_of
                      (between (attempts env k) (before (attempts env k) (foreign (attempts env) pre (remote w log_key))))),
                   body = body_of (before (attempts env k) (foreign (attempts env) pre (remote w log_key))) @ ?e\<rparr>"
      and acc: "accepted (trace (gcs_log_loop (attempts env) ?e [1..max_retries] w)) = Suc (accepted (trace w))"
    have body: "body_of (remote ?R log_key)
        = body_of (downloaded (attempts env) pre k (remote w log_key)) @ ?e"
      using log by (simp add: gcs_log_def body_of_def downloaded_def)
    have "copies ?e (body_of (remote ?R log_key))
        = Suc (copies ?e (body_of (downloaded (attempts env) pre k (remote w log_key))))"
      unfolding body by (rule copies_append_self) (rule format_entry_nonempty)
    with split body acc show ?thesis
      by (intro disjI1 exI [of _ pre] exI [of _ k] exI [of _ post]) (simp add: gcs_log_def)
  next
    fix pre post
    assume "[1..max_retries] = pre @ post"
      and "remote (gcs_log_loop (attempts env) ?e [1..max_retries] w) log_key
             = foreign (attempts env) pre (remote w log_key)"
      and "accepted (trace (gcs_log_loop (attempts env) ?e [1..max_retries] w)) = accepted (trace w)"
    then show ?thesis
      by (intro disjI2 exI [of _ pre] exI [of _ post]) (simp add: gcs_log_def)
  qed
qed




section \<open>The probe fails to run\<close>

lemma ext_a_mp3: "get_file_extension ''caseA/a.mp3'' = ''.mp3''" by code_simp

text \<open>
  C4. For a media file whose probe times out, and for one whose probe cannot be
  started, \<^verbatim>\<open>subprocess.run\<close> raises \<^verbatim>\<open>TimeoutExpired\<close> or \<^verbatim>\<open>FileNotFoundError\<close>. The
  handler of line 251 catches \<^verbatim>\<open>CalledProcessError\<close> only, so the exception leaves
  \<^verbatim>\<open>validate_file_helper\<close>: no verdict is returned.
\<close>

theorem probe_failure_leaves_validator:
  "validate_file_helper stalled_probe (write_file ''/tmp/a.mp3'' ''audio'' fresh_world)
       ''/tmp/a.mp3'' ''caseA/a.mp3''
     = Inl (Exn TimeoutExpired ''Command ffprobe timed out after 30 seconds'')
   \<and> validate_file_helper missing_probe (write_file ''/tmp/a.mp3'' ''audio'' fresh_world)
       ''/tmp/a.mp3'' ''caseA/a.mp3''
     = Inl (Exn FileNotFoundError ''No such file or directory: ffprobe'')"
  by (simp add: validate_file_helper_def ext_a_mp3 media_extensions_def validate_media_def
      write_file_def fresh_world_def stalled_probe_def missing_probe_def ideal_env_def)

section \<open>A failure of the folder policy\<close>

text \<open>
  C2. A finalized event for the root-level object \<^verbatim>\<open>report.pdf\<close> that is no longer in
  the bucket (the event delivered a second time, after the first delivery deleted the
  object): \<^verbatim>\<open>blob.delete()\<close> raises \<^verbatim>\<open>NotFound\<close> in \<^verbatim>\<open>handle_new_file_or_change\<close>, which
  line 71 calls outside every \<^verbatim>\<open>try\<close>, and the exception leaves the entry point.
\<close>

theorem policy_failure_leaves_handler:
  "analyze_discovery_material_ce ideal_env (finalized ''inbox'' ''report.pdf'') fresh_world
     = Inl (Exn NotFound ''No such object'',
            emit (Logger INFO (''File report.pdf uploaded at bucket root '' @ em_dash
                    @ '' not allowed.''))
              (emit (Logger INFO (''Called '' @ [CHR 0x22] @ ''analyze_discovery_material_ce''
                       @ [CHR 0x22] @ '' successfully'')) fresh_world))"
  by (simp add: analyze_discovery_material_ce_def handle_new_file_or_change_def finalized_def
      storage_delete_def delete_blob_def ideal_env_def fresh_world_def Let_def)

section \<open>Calls that end with their first attempt\<close>

lemma gcs_log_first_return:
  assumes "1 \<le> n" "try_statement (attempts env 1) (format_entry (clock env) sev m) 1 w = (Return, w')"
  shows "gcs_log env m sev n w = w'"
proof -
  have "[1..n] = 1 # [2..n]" using assms(1) upto_rec1 [of 1 n] by simp
  then show ?thesis using assms(2) by (simp add: gcs_log_def)
qed

lemma quiet_first: "attempts (quiet t) 1 = calm" "clock (quiet t) = t"
  by (simp_all add: quiet_def)

section \<open>An invalid object and the transcription stage\<close>

lemma broken_facts:
  "get_file_extension ''caseA/broken.mp3'' = ''.mp3''"
  "basename ''caseA/broken.mp3'' = ''broken.mp3''"
  "strip ''moov atom not found'' = ''moov atom not found''"
  "CHR ''/'' \<in> set ''caseA/broken.mp3''"
  by code_simp+

lemma broken_not_log: "(''inbox'', ''caseA/broken.mp3'') \<noteq> log_key"
  by (simp add: log_key_def LOG_BUCKET_NAME_def)

text \<open>
  C3. A finalized event for \<^verbatim>\<open>caseA/broken.mp3\<close>, which the probe finds corrupt: the
  handler returns; \<^verbatim>\<open>validate_file\<close> has deleted the object; and line 84 still calls
  \<^verbatim>\<open>speech_to_text\<close>, which sends the deleted object to the speech service and logs the
  failure. What the trace holds besides the INFO lines, in order: the validator's warning,
  the call of the speech service, the error of the transcription stage.
\<close>

theorem invalid_object_still_transcribed:
  "\<not> isl (analyze_discovery_material_ce corrupt_audio (finalized ''inbox'' ''caseA/broken.mp3'')
            (inbox_world ''caseA/broken.mp3''))
   \<and> remote (projr (analyze_discovery_material_ce corrupt_audio
          (finalized ''inbox'' ''caseA/broken.mp3'') (inbox_world ''caseA/broken.mp3'')))
        (''inbox'', ''caseA/broken.mp3'') = None
   \<and> filter (\<lambda>e. \<not> is_info e)
        (trace (projr (analyze_discovery_material_ce corrupt_audio
          (finalized ''inbox'' ''caseA/broken.mp3'') (inbox_world ''caseA/broken.mp3''))))
      = [Logger WARNING ''Invalid or corrupted media: caseA/broken.mp3, moov atom not found'',
         Recognize ''gs://inbox/caseA/broken.mp3'',
         Logger ERROR ''Speech-to-text v2 failed for gs://inbox/caseA/broken.mp3: audio not found'']"
  by (simp add: analyze_discovery_material_ce_def handle_new_file_or_change_def finalized_def
      validate_file_def storage_download_def storage_delete_def download_def delete_blob_def
      validate_file_helper_def validate_media_def media_extensions_def audio_extensions_def
      speech_to_text_def speech_try_def transcribe_gcs_def
      corrupt_audio_def ideal_env_def inbox_world_def fresh_world_def
      gcs_log_calm quiet_first broken_facts broken_not_log
      emit_def write_file_def Let_def)

section \<open>The folder policy\<close>

lemma inbox_not_log: "(''inbox'', name) \<noteq> log_key"
  by (simp add: log_key_def LOG_BUCKET_NAME_def)

text \<open>
  C6, as the code has it. For an object path without a separator whose delete call
  succeeds, the enforcer deletes the object, calls the audit append once, with the message
  that describes the deletion, on the world without the object, and returns true. The log
  gains that entry exactly once when an upload of the append is accepted, at whichever
  attempt: it then is what that attempt downloaded, followed by the entry; it gains
  nothing when the append gives up: it then is as the other invocations alone made it.
  With an undisturbed first attempt the entry is appended to the log as it was. For an
  object path with a separator the enforcer returns false and changes nothing but the
  trace of the process logger: no deletion, no audit append.
\<close>

theorem folder_policy:
  "(CHR ''/'' \<notin> set (file_name ce) \<and> fault env PolicyDelete = None
      \<and> remote w (bucket_name ce, file_name ce) \<noteq> None \<longrightarrow>
      handle_new_file_or_change env ce w
        = Inr (True,
               gcs_log (audit env AtPolicy) (deletion_message (file_name ce)) ''INFO'' 5
                 ((emit (Logger INFO (''File '' @ file_name ce @ '' uploaded at bucket root ''
                           @ em_dash @ '' not allowed.'')) w)
                    \<lparr>remote := (remote w)((bucket_name ce, file_name ce) := None)\<rparr>))
      \<and> remote (snd (projr (handle_new_file_or_change env ce w))) (bucket_name ce, file_name ce)
          = None
      \<and> ((\<exists>pre k post. [1..5] = pre @ k # post
             \<and> body_of (remote (snd (projr (handle_new_file_or_change env ce w))) log_key)
                 = body_of (downloaded (attempts (audit env AtPolicy)) pre k (remote w log_key))
                     @ format_entry (clock (audit env AtPolicy)) ''INFO''
                         (deletion_message (file_name ce))
             \<and> copies (format_entry (clock (audit env AtPolicy)) ''INFO''
                          (deletion_message (file_name ce)))
                  (body_of (remote (snd (projr (handle_new_file_or_change env ce w))) log_key))
                 = Suc (copies (format_entry (clock (audit env AtPolicy)) ''INFO''
                                  (deletion_message (file_name ce)))
                          (body_of (downloaded (attempts (audit env AtPolicy)) pre k
                             (remote w log_key))))
             \<and> accepted (trace (snd (projr (handle_new_file_or_change env ce w))))
                 = Suc (Suc (accepted (trace w))))
          \<or> (\<exists>pre post. [1..5] = pre @ post
               \<and> remote (snd (projr (handle_new_file_or_change env ce w))) log_key
                   = foreign (attempts (audit env AtPolicy)) pre (remote w log_key)
               \<and> accepted (trace (snd (projr (handle_new_file_or_change env ce w))))
                   = Suc (accepted (trace w))))
      \<and> (attempts (audit env AtPolicy) 1 = calm \<longrightarrow>
            remote (snd (projr (handle_new_file_or_change env ce w))) log_key
              = Some \<lparr>generation = Suc (current_generation_of (remote w log_key)),
                      body = body_of (remote w log_key)
                        @ format_entry (clock (audit env AtPolicy)) ''INFO''
                            (deletion_message (file_name ce))\<rparr>))
   \<and> (CHR ''/'' \<in> set (file_name ce) \<longrightarrow>
        handle_new_file_or_change env ce w
          = Inr (False, emit (Logger INFO (''File '' @ file_name ce
                                @ '' is inside a folder. Continuing...'')) w))"
proof (intro conjI impI)
  assume h: "CHR ''/'' \<notin> set (file_name ce) \<and> fault env PolicyDelete = None
      \<and> remote w (bucket_name ce, file_name ce) \<noteq> None"
  let ?w2 = "(emit (Logger INFO (''File '' @ file_name ce @ '' uploaded at bucket root ''
                           @ em_dash @ '' not allowed.'')) w)
                    \<lparr>remote := (remote w)((bucket_name ce, file_name ce) := None)\<rparr>"
  let ?A = "audit env AtPolicy"
  let ?m = "deletion_message (file_name ce)"
  from h show run: "handle_new_file_or_change env ce w
        = Inr (True, gcs_log ?A ?m ''INFO'' 5 ?w2)"
    by (auto simp: handle_new_file_or_change_def storage_delete_def delete_blob_def Let_def)
  from h have key: "(bucket_name ce, file_name ce) \<noteq> log_key"
    by (simp add: root_name_not_log_key)
  show "remote (snd (projr (handle_new_file_or_change env ce w))) (bucket_name ce, file_name ce)
          = None"
    unfolding run by (simp add: gcs_log_frame [OF key])
  have log2: "remote ?w2 log_key = remote w log_key" using key by simp
  have acc2: "accepted (trace ?w2) = Suc (accepted (trace w))"
    by (simp add: emit_def accepted_def)
  from audit_append_facts [where env="?A" and message="?m" and severity="''INFO''"
      and max_retries=5 and w="?w2"]
  show "(\<exists>pre k post. [1..5] = pre @ k # post
             \<and> body_of (remote (snd (projr (handle_new_file_or_change env ce w))) log_key)
                 = body_of (downloaded (attempts ?A) pre k (remote w log_key))
                     @ format_entry (clock ?A) ''INFO'' ?m
             \<and> copies (format_entry (clock ?A) ''INFO'' ?m)
                  (body_of (remote (snd (projr (handle_new_file_or_change env ce w))) log_key))
                 = Suc (copies (format_entry (clock ?A) ''INFO'' ?m)
                          (body_of (downloaded (attempts ?A) pre k (remote w log_key))))
             \<and> accepted (trace (snd (projr (handle_new_file_or_change env ce w))))
                 = Suc (Suc (accepted (trace w))))
          \<or> (\<exists>pre post. [1..5] = pre @ post
               \<and> remote (snd (projr (handle_new_file_or_change env ce w))) log_key
                   = foreign (attempts ?A) pre (remote w log_key)
               \<and> accepted (trace (snd (projr (handle_new_file_or_change env ce w))))
                   = Suc (accepted (trace w)))"
    unfolding run log2 acc2 by simp
  assume "attempts (audit env AtPolicy) 1 = calm"
  then show "remote (snd (projr (handle_new_file_or_change env ce w))) log_key
              = Some \<lparr>generation = Suc (current_generation_of (remote w log_key)),
                      body = body_of (remote w log_key)
                        @ format_entry (clock (audit env AtPolicy)) ''INFO''
                            (deletion_message (file_name ce))\<rparr>"
    unfolding run using key by (simp add: gcs_log_calm)
next
  assume "CHR ''/'' \<in> set (file_name ce)"
  then show "handle_new_file_or_change env ce w
          = Inr (False, emit (Logger INFO (''File '' @ file_name ce
                                @ '' is inside a folder. Continuing...'')) w)"
    by (simp add: handle_new_file_or_change_def)
qed

theorem folder_policy_witness:
  "handle_new_file_or_change ideal_env (finalized ''inbox'' ''report.pdf'') (inbox_world ''report.pdf'')
     = Inr (True,
            gcs_log (quiet ''2026-01-01 00:00:00 UTC'') (deletion_message ''report.pdf'') ''INFO'' 5
              ((emit (Logger INFO (''File report.pdf uploaded at bucket root '' @ em_dash
                        @ '' not allowed.'')) (inbox_world ''report.pdf''))
                 \<lparr>remote := (remote (inbox_world ''report.pdf''))((''inbox'', ''report.pdf'') := None)\<rparr>))
   \<and> remote (snd (projr (handle_new_file_or_change ideal_env (finalized ''inbox'' ''report.pdf'')
                (inbox_world ''report.pdf'')))) (''inbox'', ''report.pdf'') = None
   \<and> remote (snd (projr (handle_new_file_or_change ideal_env (finalized ''inbox'' ''report.pdf'')
                (inbox_world ''report.pdf'')))) log_key
       = Some \<lparr>generation = 1,
               body = ''[2026-01-01 00:00:00 UTC] [INFO]: Deleted disallowed file report.pdf (no files allowed at bucket root)''
                        @ [CHR 0x0A]\<rparr>
   \<and> remote (snd (projr (handle_new_file_or_change shared_log (finalized ''inbox'' ''report.pdf'')
                (inbox_with_log ''report.pdf'')))) (''inbox'', ''report.pdf'') = None
   \<and> remote (snd (projr (handle_new_file_or_change shared_log (finalized ''inbox'' ''report.pdf'')
                (inbox_with_log ''report.pdf'')))) log_key
       = Some \<lparr>generation = 3,
               body = ''oldother[2026-01-01 00:00:00 UTC] [INFO]: Deleted disallowed file report.pdf (no files allowed at bucket root)''
                        @ [CHR 0x0A]\<rparr>
   \<and> handle_new_file_or_change ideal_env (finalized ''inbox'' ''caseA/photo.png'')
         (inbox_world ''caseA/photo.png'')
       = Inr (False, emit (Logger INFO ''File caseA/photo.png is inside a folder. Continuing...'')
                (inbox_world ''caseA/photo.png''))"
proof -
  let ?ce = "finalized ''inbox'' ''report.pdf''"
  have names: "file_name ?ce = ''report.pdf''" "bucket_name ?ce = ''inbox''"
    "file_name (finalized ''inbox'' ''caseA/photo.png'') = ''caseA/photo.png''"
    "audit ideal_env AtPolicy = quiet ''2026-01-01 00:00:00 UTC''"
    "audit shared_log AtPolicy = interrupted"
    by (simp_all add: finalized_def ideal_env_def shared_log_def)
  have root: "CHR ''/'' \<notin> set (file_name ?ce) \<and> fault ideal_env PolicyDelete = None
      \<and> remote (inbox_world ''report.pdf'') (bucket_name ?ce, file_name ?ce) \<noteq> None"
    by (simp add: names ideal_env_def inbox_world_def fresh_world_def)
  have root': "CHR ''/'' \<notin> set (file_name ?ce) \<and> fault shared_log PolicyDelete = None
      \<and> remote (inbox_with_log ''report.pdf'') (bucket_name ?ce, file_name ?ce) \<noteq> None"
    using inbox_not_log [of "''report.pdf''"]
    by (auto simp add: names shared_log_def ideal_env_def inbox_with_log_def fresh_world_def)
  have calm1: "attempts (audit ideal_env AtPolicy) 1 = calm"
    by (simp add: names quiet_def)
  have inside: "CHR ''/'' \<in> set (file_name (finalized ''inbox'' ''caseA/photo.png''))"
    by (simp add: names)
  have absent: "remote (inbox_world ''report.pdf'') log_key = None"
    using inbox_not_log [of "''report.pdf''"]
    by (simp add: inbox_world_def fresh_world_def)
  note plain = folder_policy [where ce="?ce" and env=ideal_env
      and w="inbox_world ''report.pdf''", THEN conjunct1, rule_format, OF root]
  note shared = folder_policy [where ce="?ce" and env=shared_log
      and w="inbox_with_log ''report.pdf''", THEN conjunct1, rule_format, OF root']
  note folder = folder_policy [where ce="finalized ''inbox'' ''caseA/photo.png''"
      and env=ideal_env and w="inbox_world ''caseA/photo.png''", THEN conjunct2, rule_format,
      OF inside]
  have a: "handle_new_file_or_change ideal_env ?ce (inbox_world ''report.pdf'')
     = Inr (True,
            gcs_log (quiet ''2026-01-01 00:00:00 UTC'') (deletion_message ''report.pdf'') ''INFO'' 5
              ((emit (Logger INFO (''File report.pdf uploaded at bucket root '' @ em_dash
                        @ '' not allowed.'')) (inbox_world ''report.pdf''))
                 \<lparr>remote := (remote (inbox_world ''report.pdf''))((''inbox'', ''report.pdf'') := None)\<rparr>))"
    using plain [THEN conjunct1] by (simp add: names)
  have b: "remote (snd (projr (handle_new_file_or_change ideal_env ?ce (inbox_world ''report.pdf''))))
      (''inbox'', ''report.pdf'') = None"
    using plain [THEN conjunct2, THEN conjunct1] by (simp add: names)
  have c: "remote (snd (projr (handle_new_file_or_change ideal_env ?ce (inbox_world ''report.pdf'')))) log_key
       = Some \<lparr>generation = 1,
               body = ''[2026-01-01 00:00:00 UTC] [INFO]: Deleted disallowed file report.pdf (no files allowed at bucket root)''
                        @ [CHR 0x0A]\<rparr>"
    using plain [THEN conjunct2, THEN conjunct2, THEN conjunct2, rule_format, OF calm1]
    by (simp add: names absent quiet_def current_generation_of_def body_of_def format_entry_def
        deletion_message_def)
  have d: "remote (snd (projr (handle_new_file_or_change shared_log ?ce (inbox_with_log ''report.pdf''))))
      (''inbox'', ''report.pdf'') = None"
    using shared [THEN conjunct2, THEN conjunct1] by (simp add: names)
  let ?w2 = "(emit (Logger INFO (''File '' @ ''report.pdf'' @ '' uploaded at bucket root ''
                           @ em_dash @ '' not allowed.'')) (inbox_with_log ''report.pdf''))
                    \<lparr>remote := (remote (inbox_with_log ''report.pdf''))((''inbox'', ''report.pdf'') := None)\<rparr>"
  have log2: "remote ?w2 log_key = Some \<lparr>generation = 1, body = ''old''\<rparr>"
    using inbox_not_log [of "''report.pdf''"]
    by (auto simp add: inbox_with_log_def fresh_world_def)
  have raw: "remote (gcs_log interrupted (deletion_message ''report.pdf'') ''INFO'' 5 ?w2) log_key
     = Some \<lparr>generation = Suc (current_generation_of (rival (remote ?w2 log_key))),
             body = body_of (rival (remote ?w2 log_key))
               @ format_entry (clock interrupted) ''INFO'' (deletion_message ''report.pdf'')\<rparr>"
  proof (rule second_attempt_run)
    show "attempts interrupted 1 = calm\<lparr>between := rival\<rparr>" by (simp add: interrupted_def)
    show "attempts interrupted 2 = calm" by (simp add: interrupted_def)
    show "0 < current_generation_of (remote ?w2 log_key)"
      unfolding log2 by (simp add: current_generation_of_def)
    show "current_generation_of (rival (remote ?w2 log_key))
        \<noteq> current_generation_of (remote ?w2 log_key)"
      unfolding log2 by (simp add: rival_def current_generation_of_def)
  qed
  have run: "remote (gcs_log interrupted (deletion_message ''report.pdf'') ''INFO'' 5 ?w2) log_key
       = Some \<lparr>generation = 3,
               body = ''oldother[2026-01-01 00:00:00 UTC] [INFO]: Deleted disallowed file report.pdf (no files allowed at bucket root)''
                        @ [CHR 0x0A]\<rparr>"
    unfolding raw log2
    by (simp add: rival_def current_generation_of_def body_of_def interrupted_def format_entry_def
          deletion_message_def)
  have e: "remote (snd (projr (handle_new_file_or_change shared_log ?ce (inbox_with_log ''report.pdf'')))) log_key
       = Some \<lparr>generation = 3,
               body = ''oldother[2026-01-01 00:00:00 UTC] [INFO]: Deleted disallowed file report.pdf (no files allowed at bucket root)''
                        @ [CHR 0x0A]\<rparr>"
    unfolding shared [THEN conjunct1] names
    by (simp only: sum.sel snd_conv run)
  have f: "handle_new_file_or_change ideal_env (finalized ''inbox'' ''caseA/photo.png'')
         (inbox_world ''caseA/photo.png'')
       = Inr (False, emit (Logger INFO ''File caseA/photo.png is inside a folder. Continuing...'')
                (inbox_world ''caseA/photo.png''))"
    using folder by (simp add: names)
  from a b c d e f show ?thesis by simp
qed

text \<open>
  The append is best effort: an upload that fails for another reason than a generation
  mismatch ends the call, and nothing is appended.
\<close>

lemma failing_audit_gives_up:
  "gcs_log failing_audit m sev 5 w =
     emit (Logger ERROR (''Unexpected error while writing to logs.txt: 503 Service Unavailable''))
       (w\<lparr>remote := (remote w)(log_key := remote w log_key),
          tmp := (tmp w)(LOCAL_LOG_PATH \<mapsto> body_of (remote w log_key)
                   @ format_entry ''2026-01-01 00:00:00 UTC'' sev m)\<rparr>)"
proof -
  let ?a = "calm\<lparr>upload_fault := Some (Exn OtherException ''503 Service Unavailable'')\<rparr>"
  have "try_block ?a (format_entry ''2026-01-01 00:00:00 UTC'' sev m) 1 w =
     (Some (Exn OtherException ''503 Service Unavailable''),
      w\<lparr>remote := (remote w)(log_key := remote w log_key),
        tmp := (tmp w)(LOCAL_LOG_PATH \<mapsto> body_of (remote w log_key)
                   @ format_entry ''2026-01-01 00:00:00 UTC'' sev m)\<rparr>)"
    using try_block_upload_fault [where a="?a" and w=w and k=1
        and le="format_entry ''2026-01-01 00:00:00 UTC'' sev m"
        and e="Exn OtherException ''503 Service Unavailable''"]
    by (simp add: calm_def staged_def)
  then have "try_statement ?a (format_entry ''2026-01-01 00:00:00 UTC'' sev m) 1 w =
     (Return, emit (Logger ERROR (''Unexpected error while writing to logs.txt: 503 Service Unavailable''))
       (w\<lparr>remote := (remote w)(log_key := remote w log_key),
          tmp := (tmp w)(LOCAL_LOG_PATH \<mapsto> body_of (remote w log_key)
                   @ format_entry ''2026-01-01 00:00:00 UTC'' sev m)\<rparr>))"
    by (simp add: try_statement_def)
  then show ?thesis
    by (intro gcs_log_first_return) (simp_all add: failing_audit_def)
qed

text \<open>
  C6 as stated fails: the root-level object \<^verbatim>\<open>report.pdf\<close> is deleted and true is
  returned, while the audit append gives up on its failing upload: the log object does
  not even exist afterwards, so no entry was appended.
\<close>

theorem root_object_deleted_without_entry:
  "\<not> isl (handle_new_file_or_change deaf_log (finalized ''inbox'' ''report.pdf'')
            (inbox_world ''report.pdf''))
   \<and> fst (projr (handle_new_file_or_change deaf_log (finalized ''inbox'' ''report.pdf'')
            (inbox_world ''report.pdf'')))
   \<and> remote (snd (projr (handle_new_file_or_change deaf_log (finalized ''inbox'' ''report.pdf'')
            (inbox_world ''report.pdf'')))) (''inbox'', ''report.pdf'') = None
   \<and> remote (snd (projr (handle_new_file_or_change deaf_log (finalized ''inbox'' ''report.pdf'')
            (inbox_world ''report.pdf'')))) log_key = None"
  using inbox_not_log [of "''report.pdf''"]
  by (simp add: handle_new_file_or_change_def finalized_def storage_delete_def delete_blob_def
      deaf_log_def ideal_env_def inbox_world_def fresh_world_def failing_audit_gives_up
      emit_def Let_def)

section \<open>The transcription stage on other objects\<close>

text \<open>
  C9, as the code has it. For an object whose extension, lower-cased, is none of \<open>.mp3\<close>,
  \<open>.wav\<close>, \<open>.flac\<close>, \<open>.m4a\<close>, \<open>.ogg\<close>, the transcription stage leaves the object
  store (the audit log and every other object) and the scratch files as they are, and adds
  to the trace one line of the process logger and nothing else: no call of the speech
  service.
\<close>

theorem non_audio_skipped:
  "snd (splitext (file_name ce)) = e \<Longrightarrow> lower e \<notin> set audio_extensions \<Longrightarrow>
   remote (speech_to_text env ce w) = remote w
   \<and> tmp (speech_to_text env ce w) = tmp w
   \<and> trace (speech_to_text env ce w)
       = trace w @ [Logger INFO (''Skipping speech-to-text: unsupported file type '' @ [CHR 0x27]
                      @ lower e @ [CHR 0x27])]"
  by (auto simp add: speech_to_text_def get_file_extension_def Let_def emit_def)

theorem non_audio_skipped_witness:
  "snd (splitext (file_name (finalized ''inbox'' ''caseA/photo.PNG''))) = ''.PNG''
   \<and> lower ''.PNG'' \<notin> set audio_extensions
   \<and> remote (speech_to_text ideal_env (finalized ''inbox'' ''caseA/photo.PNG'') fresh_world)
       = remote fresh_world
   \<and> trace (speech_to_text ideal_env (finalized ''inbox'' ''caseA/photo.PNG'') fresh_world)
       = [Logger INFO (''Skipping speech-to-text: unsupported file type '' @ [CHR 0x27]
            @ ''.png'' @ [CHR 0x27])]"
proof -
  have ext: "snd (splitext ''caseA/photo.PNG'') = ''.PNG''" by code_simp
  have low: "lower ''.PNG'' = ''.png''" by code_simp
  have raw: "snd (splitext (file_name (finalized ''inbox'' ''caseA/photo.PNG''))) = ''.PNG''"
    by (simp add: finalized_def ext)
  have hyp: "lower ''.PNG'' \<notin> set audio_extensions"
    by (simp add: low audio_extensions_def)
  from non_audio_skipped [OF raw hyp, of ideal_env fresh_world] raw hyp
  show ?thesis by (simp add: low fresh_world_def)
qed

lemma upper_facts:
  "snd (splitext ''caseA/a.MP3'') = ''.MP3''"
  "get_file_extension ''caseA/a.MP3'' = ''.mp3''"
  "processed_blob_name ''caseA/a.MP3'' = ''caseA/a.txt''"
  "basename ''caseA/a.txt'' = ''a.txt''"
  "strip ''hello'' = ''hello''"
  by code_simp+

lemma artifact_not_log: "(OUTPUT_BUCKET, ''caseA/a.txt'') \<noteq> log_key"
  by (simp add: log_key_def LOG_FOLDER_def LOG_FILE_NAME_def)

text \<open>
  C9 as stated fails: the extension \<open>.MP3\<close> is none of the five, yet line 124 lower-cases
  it before the comparison, and the object is transcribed: the speech service is called,
  the transcript is stored as \<^verbatim>\<open>caseA/a.txt\<close> and an audit entry is appended.
\<close>

theorem upper_case_audio_is_transcribed:
  "snd (splitext (file_name (finalized ''inbox'' ''caseA/a.MP3''))) = ''.MP3''
   \<and> ''.MP3'' \<notin> set audio_extensions
   \<and> remote (speech_to_text ideal_env (finalized ''inbox'' ''caseA/a.MP3'')
               (inbox_world ''caseA/a.MP3'')) (OUTPUT_BUCKET, ''caseA/a.txt'')
       = Some \<lparr>generation = 1, body = ''hello''\<rparr>
   \<and> body_of (remote (speech_to_text ideal_env (finalized ''inbox'' ''caseA/a.MP3'')
               (inbox_world ''caseA/a.MP3'')) log_key)
       = format_entry ''2026-01-01 00:00:00 UTC'' ''INFO''
           (''Transcribed gs://inbox/caseA/a.MP3 '' @ arrow
              @ '' gs://discovery-processed/caseA/a.txt'')
   \<and> filter (\<lambda>ev. \<not> is_info ev)
        (trace (speech_to_text ideal_env (finalized ''inbox'' ''caseA/a.MP3'')
                  (inbox_world ''caseA/a.MP3'')))
       = [Recognize ''gs://inbox/caseA/a.MP3'']"
  using artifact_not_log inbox_not_log [of "''caseA/a.MP3''"]
  by (simp add: speech_to_text_def speech_try_def transcribe_gcs_def storage_upload_def upload_def
      upper_facts audio_extensions_def finalized_def ideal_env_def inbox_world_def fresh_world_def
      gcs_log_calm quiet_first emit_def write_file_def read_file_def Let_def
      current_generation_of_def body_of_def OUTPUT_BUCKET_def)

end
